theory Spec2Isabelle
  imports Main "HOL-Library.Char_ord" "HOL-Library.List_Lexorder" "HOL-Library.Multiset"
begin

section \<open>The registry mirror of skychart: data model\<close>

text \<open>
  The development follows the Go package \<^verbatim>\<open>server\<close> (the handler with its query
  methods, and \<^verbatim>\<open>pull.go\<close> with the synchronisation pass) and the type
  \<^verbatim>\<open>types.Path\<close>. Go strings are byte strings and are modelled as \<^typ>\<open>string\<close>;
  Go maps are partial functions; a Go \<^verbatim>\<open>error\<close> result is an \<^typ>\<open>'a option\<close>
  (\<open>None\<close> for \<^verbatim>\<open>nil\<close>); a panic is a value of its own.
\<close>

subsection \<open>types.Path\<close>

record PathChain =
  ChainName :: string
  ClientID :: string
  ConnectionID :: string

record ChannelChain =
  ChannelID :: string
  PortID :: string

record Tags =
  Status :: string
  Preferred :: bool
  Dex :: string
  Properties :: string

record Channel =
  Chain1 :: ChannelChain
  Chain2 :: ChannelChain
  Ordering :: string
  Version :: string
  Tags :: Tags

record Path =
  Chain1 :: PathChain
  Chain2 :: PathChain
  Channels :: "Channel list"

subsection \<open>types.Chain and types.AssetList\<close>

text \<open>
  Modelled from the spec: the declarations of \<^verbatim>\<open>types.Chain\<close>, \<^verbatim>\<open>types.AssetList\<close>
  and of the asset record are not part of the sources at hand. The fields are the ones the
  specification lists (chain identifier, name, endpoint groups, peer lists; owning chain
  identifier and the ordered assets with their display names), under the names the
  handler uses for them.
\<close>

record Asset =
  Display :: string

record AssetList =
  ChainID :: string
  Assets :: "Asset list"

record Chain =
  ChainID :: string
  Name :: string
  RPC :: "string list"
  Grpc :: "string list"
  REST :: "string list"
  PersistentPeers :: "string list"
  Seeds :: "string list"

text \<open>The zero values \<^verbatim>\<open>types.Chain{}\<close>, \<^verbatim>\<open>types.AssetList{}\<close>, \<^verbatim>\<open>types.Path{}\<close>.\<close>

definition zeroChain :: Chain where
  "zeroChain = \<lparr>Chain.ChainID = [], Name = [], RPC = [], Grpc = [], REST = [],
     PersistentPeers = [], Seeds = []\<rparr>"

definition zeroAssetList :: AssetList where
  "zeroAssetList = \<lparr>AssetList.ChainID = [], Assets = []\<rparr>"

definition zeroPathChain :: PathChain where
  "zeroPathChain = \<lparr>ChainName = [], ClientID = [], ConnectionID = []\<rparr>"

definition zeroPath :: Path where
  "zeroPath = \<lparr>Chain1 = zeroPathChain, Chain2 = zeroPathChain, Channels = []\<rparr>"

subsection \<open>The handler\<close>

text \<open>
  The struct \<^verbatim>\<open>Handler\<close>. The logger is left out: it is written to and never read.
  \<^verbatim>\<open>lastUpdated\<close> is a time in seconds since the epoch.
\<close>

record Handler =
  registryUrl :: string
  lastUpdated :: int
  chains :: "string list"
  assets :: "string list"
  paths :: "string list"
  chainByAsset :: "string \<rightharpoonup> string"
  chainById :: "string \<rightharpoonup> string"
  pathsByTag :: "string \<rightharpoonup> (string \<rightharpoonup> Path list)"
  chainList :: "string \<rightharpoonup> Chain"
  assetList :: "string \<rightharpoonup> AssetList"
  pathList :: "string \<rightharpoonup> Path"

definition DEX :: string where "DEX = ''dex''"
definition PREFERRED :: string where "PREFERRED = ''preferred''"
definition PROPERTIES :: string where "PROPERTIES = ''properties''"
definition STATUS :: string where "STATUS = ''status''"

definition NewHandler :: "string \<Rightarrow> Handler" where
  "NewHandler url =
     \<lparr>registryUrl = url, lastUpdated = 0, chains = [], assets = [], paths = [],
      chainByAsset = Map.empty, chainById = Map.empty,
      pathsByTag = [''dex'' \<mapsto> Map.empty, ''preferred'' \<mapsto> Map.empty,
                    ''properties'' \<mapsto> Map.empty, ''status'' \<mapsto> Map.empty],
      chainList = Map.empty, assetList = Map.empty, pathList = Map.empty\<rparr>"

subsection \<open>Panics, and what a handler writes\<close>

datatype panic = IndexOutOfRange | TypeAssertion | NilMapAssignment | MissingTagKey string

datatype 'a run = Returned 'a | Panic panic

text \<open>
  A request handler is given the route variables (\<^verbatim>\<open>mux.Vars\<close>) and writes to the
  response writer. What it writes is kept as the sequence of the calls it makes:
  \<^verbatim>\<open>WriteHeader\<close> with a status code, and \<^verbatim>\<open>Write\<close> with the JSON encoding of a
  payload. The CORS headers, the same in every response, are left out.
\<close>

datatype payload =
  JChain Chain | JAssetList AssetList | JPath Path | JPaths "Path list"

datatype written = WriteHeader nat | Write payload

definition StatusOK :: nat where "StatusOK = 200"
definition StatusBadRequest :: nat where "StatusBadRequest = 400"
definition StatusNotFound :: nat where "StatusNotFound = 404"

definition respondWithJSON :: "written list \<Rightarrow> payload \<Rightarrow> written list" where
  "respondWithJSON w p = w @ [WriteHeader StatusOK, Write p]"

definition resourceNotFound :: "written list \<Rightarrow> written list" where
  "resourceNotFound w = w @ [WriteHeader StatusNotFound]"

definition badRequest :: "written list \<Rightarrow> written list" where
  "badRequest w = w @ [WriteHeader StatusBadRequest]"

section \<open>Strings\<close>

text \<open>
  \<^verbatim>\<open>strings.Compare\<close> orders byte strings lexicographically; the order on
  \<^typ>\<open>string\<close> is the lexicographic one over the byte values.
\<close>

definition Compare :: "string \<Rightarrow> string \<Rightarrow> int" where
  "Compare a b = (if a = b then 0 else if a < b then - 1 else 1)"

fun HasPrefix :: "string \<Rightarrow> string \<Rightarrow> bool" where
  "HasPrefix s [] = True"
| "HasPrefix [] (c # cs) = False"
| "HasPrefix (d # ds) (c # cs) = (d = c \<and> HasPrefix ds cs)"

text \<open>\<^verbatim>\<open>strings.Contains s substr\<close>: \<open>substr\<close> occurs in \<open>s\<close> as a contiguous block.\<close>

fun Contains :: "string \<Rightarrow> string \<Rightarrow> bool" where
  "Contains [] sub = (sub = [])"
| "Contains (c # cs) sub = (HasPrefix (c # cs) sub \<or> Contains cs sub)"

text \<open>
  \<^verbatim>\<open>strings.Split s sep\<close> for a separator of one byte, the only use the handler
  makes of it. The result is never empty: \<^verbatim>\<open>Split("", "-")\<close> is \<^verbatim>\<open>[""]\<close>.
\<close>

fun Split :: "string \<Rightarrow> char \<Rightarrow> string list" where
  "Split [] sep = [[]]"
| "Split (c # cs) sep =
     (if c = sep then [] # Split cs sep
      else (case Split cs sep of [] \<Rightarrow> [[c]] | x # xs \<Rightarrow> (c # x) # xs))"

definition FormatBool :: "bool \<Rightarrow> string" where
  "FormatBool b = (if b then ''true'' else ''false'')"

section \<open>Queries\<close>

definition getPathName :: "string \<Rightarrow> string \<Rightarrow> string" where
  "getPathName chain1Name chain2Name =
     (if Compare chain1Name chain2Name = 1 then chain2Name @ ''-'' @ chain1Name
      else chain1Name @ ''-'' @ chain2Name)"

definition findChain :: "Handler \<Rightarrow> string \<Rightarrow> bool \<times> Chain" where
  "findChain h name =
     (case chainList h name of
        Some chain \<Rightarrow> (True, chain)
      | None \<Rightarrow>
          (case chainById h name of
             None \<Rightarrow> (False, zeroChain)
           | Some name' \<Rightarrow>
               (True, (case chainList h name' of None \<Rightarrow> zeroChain | Some c \<Rightarrow> c))))"

definition findPath :: "Handler \<Rightarrow> string \<Rightarrow> bool \<times> Path" where
  "findPath h name =
     (case pathList h name of None \<Rightarrow> (False, zeroPath) | Some path \<Rightarrow> (True, path))"

text \<open>
  Go leaves the order in which \<^verbatim>\<open>range\<close> walks a map open. A function that ranges
  over a map takes the order of that walk as an argument \<open>ks\<close>: the keys as the runtime
  enumerates them.
\<close>

definition rangeValues :: "('k \<rightharpoonup> 'v) \<Rightarrow> 'k list \<Rightarrow> 'v list" where
  "rangeValues m ks = List.map_filter m ks"


definition Chain_handler :: "Handler \<Rightarrow> (string \<rightharpoonup> string) \<Rightarrow> written list" where
  "Chain_handler h vars =
     (case vars ''chain'' of
        None \<Rightarrow> badRequest []
      | Some chainName \<Rightarrow>
          (case findChain h chainName of
             (False, _) \<Rightarrow> resourceNotFound []
           | (True, chain) \<Rightarrow> respondWithJSON [] (JChain chain)))"

text \<open>
  \<^verbatim>\<open>ChainAsset\<close>: after \<^verbatim>\<open>badRequest(res)\<close> there is no \<^verbatim>\<open>return\<close>; the failed
  lookup has left the empty string in \<^verbatim>\<open>chainName\<close>, and the handler goes on to look
  that up and to respond.
\<close>

definition ChainAsset :: "Handler \<Rightarrow> (string \<rightharpoonup> string) \<Rightarrow> written list" where
  "ChainAsset h vars =
     (case vars ''chain'' of
        None \<Rightarrow> badRequest []
      | Some chainName \<Rightarrow>
          (case assetList h chainName of
             Some al \<Rightarrow> respondWithJSON [] (JAssetList al)
           | None \<Rightarrow>
               (case chainById h chainName of
                  None \<Rightarrow>
                    respondWithJSON (badRequest [])
                      (JAssetList (case assetList h [] of None \<Rightarrow> zeroAssetList | Some a \<Rightarrow> a))
                | Some chainName' \<Rightarrow>
                    respondWithJSON []
                      (JAssetList (case assetList h chainName' of
                                     None \<Rightarrow> zeroAssetList | Some a \<Rightarrow> a)))))"


definition getPathsWithTag :: "Handler \<Rightarrow> string list \<Rightarrow> string \<Rightarrow> string \<Rightarrow> Path list run" where
  "getPathsWithTag h ks tag val =
     (if length val = 0 then Returned (rangeValues (pathList h) ks)
      else (case pathsByTag h tag of
              None \<Rightarrow> Panic (MissingTagKey tag)
            | Some byTag \<Rightarrow>
                (case byTag val of None \<Rightarrow> Returned [] | Some matches \<Rightarrow> Returned matches)))"

text \<open>
  \<^verbatim>\<open>Path\<close>: the path variable is split at \<^verbatim>\<open>"-"\<close> and the first two pieces are
  indexed without a check of the length.
\<close>

definition Path_handler :: "Handler \<Rightarrow> (string \<rightharpoonup> string) \<Rightarrow> written list run" where
  "Path_handler h vars =
     (case vars ''path'' of
        None \<Rightarrow> Returned (badRequest [])
      | Some pathName \<Rightarrow>
          (case Split pathName CHR ''-'' of
             c1 # c2 # _ \<Rightarrow>
               (case findPath h (getPathName c1 c2) of
                  (False, _) \<Rightarrow> Returned (resourceNotFound [])
                | (True, path) \<Rightarrow> Returned (respondWithJSON [] (JPath path)))
           | _ \<Rightarrow> Panic IndexOutOfRange))"

section \<open>The synchronisation pass\<close>

subsection \<open>The remote source\<close>

text \<open>
  What \<^verbatim>\<open>http.Get\<close> followed by \<^verbatim>\<open>ioutil.ReadAll\<close> and \<^verbatim>\<open>json.Unmarshal\<close> can
  give: the request itself fails, or there is a response with a status code, whose body
  may fail to be read, and whose bytes decode to a value or fail to (\<open>None\<close>).
\<close>

datatype 'a response = GetFailed | Response nat bool "'a option"

datatype error = GetError | UnexpectedStatus nat | ReadError | UnmarshalError

text \<open>
  A directory listing is decoded into \<^verbatim>\<open>[]map[string]interface{}\<close>. Of an entry the
  pass reads \<^verbatim>\<open>entry["type"]\<close> and \<^verbatim>\<open>entry["name"]\<close> with a type assertion to
  \<^verbatim>\<open>string\<close>: \<open>None\<close> stands for a key that is absent or holds no string, where the
  assertion panics.
\<close>

record entry =
  entryType :: "string option"
  entryName :: "string option"

text \<open>
  The requests of a pass, for the registry of the handler: the commit history since a
  time, the two directory listings, and the three kinds of document.
\<close>

datatype request =
  ReqCommits int | ReqContents | ReqContentsIBC
  | ReqChainJson string | ReqAssetlistJson string | ReqPathJson string

text \<open>
  Everything outside the handler that a pass observes: the answer of the remote source
  to each request, the clock (\<^verbatim>\<open>time.Now\<close>), and the order in which the runtime walks
  the map \<^verbatim>\<open>h.assetList\<close> when the assets are indexed.
\<close>

record world =
  commits :: "int \<Rightarrow> unit list response"
  contents :: "entry list response"
  contentsIBC :: "entry list response"
  chainJson :: "string \<Rightarrow> Chain response"
  assetlistJson :: "string \<Rightarrow> AssetList response"
  pathJson :: "string \<Rightarrow> Path response"
  now :: int
  assetListOrder :: "string list"

subsection \<open>recentCommits\<close>

text \<open>A failure of \<^verbatim>\<open>ReadAll\<close> is only logged here; the bytes are decoded all the same.\<close>

definition recentCommits :: "world \<Rightarrow> Handler \<Rightarrow> (bool \<times> error option) \<times> request list" where
  "recentCommits w h =
     ((case commits w (lastUpdated h) of
         GetFailed \<Rightarrow> (False, Some GetError)
       | Response st rf body \<Rightarrow>
           if st \<noteq> StatusOK then (False, Some (UnexpectedStatus st))
           else (case body of
                   None \<Rightarrow> (False, Some UnmarshalError)
                 | Some b \<Rightarrow> (length b > 0, None))),
      [ReqCommits (lastUpdated h)])"

subsection \<open>Discovery: getChains and getPaths\<close>

fun chainNames :: "entry list \<Rightarrow> string list \<Rightarrow> string list run" where
  "chainNames [] acc = Returned acc"
| "chainNames (e # es) acc =
     (case entryType e of
        None \<Rightarrow> Panic TypeAssertion
      | Some t \<Rightarrow>
          if t \<noteq> ''dir'' then chainNames es acc
          else (case entryName e of
                  None \<Rightarrow> Panic TypeAssertion
                | Some name \<Rightarrow>
                    if Contains name ''testnets'' then chainNames es acc
                    else if Contains name ''.'' then chainNames es acc
                    else chainNames es (acc @ [name])))"

definition getChains :: "world \<Rightarrow> Handler \<Rightarrow> (error option \<times> Handler) run \<times> request list" where
  "getChains w h =
     ((case contents w of
         GetFailed \<Rightarrow> Returned (Some GetError, h)
       | Response st rf body \<Rightarrow>
           if st \<noteq> StatusOK then Returned (Some (UnexpectedStatus st), h)
           else if rf then Returned (Some ReadError, h)
           else (case body of
                   None \<Rightarrow> Returned (Some UnmarshalError, h)
                 | Some repo \<Rightarrow>
                     (case chainNames repo [] of
                        Panic p \<Rightarrow> Panic p
                      | Returned cs \<Rightarrow> Returned (None, h\<lparr>chains := cs\<rparr>)))),
      [ReqContents])"

fun pathNames :: "entry list \<Rightarrow> string list \<Rightarrow> string list run" where
  "pathNames [] acc = Returned acc"
| "pathNames (e # es) acc =
     (case entryType e of
        None \<Rightarrow> Panic TypeAssertion
      | Some t \<Rightarrow>
          if t \<noteq> ''file'' then pathNames es acc
          else (case entryName e of
                  None \<Rightarrow> Panic TypeAssertion
                | Some name \<Rightarrow>
                    if \<not> Contains name ''.json'' then pathNames es acc
                    else if \<not> Contains name ''-'' then pathNames es acc
                    else (case Split name CHR ''.'' of
                            [] \<Rightarrow> Panic IndexOutOfRange
                          | name' # _ \<Rightarrow> pathNames es (acc @ [name']))))"

definition getPaths :: "world \<Rightarrow> Handler \<Rightarrow> (error option \<times> Handler) run \<times> request list" where
  "getPaths w h =
     ((case contentsIBC w of
         GetFailed \<Rightarrow> Returned (Some GetError, h)
       | Response st rf body \<Rightarrow>
           if st \<noteq> StatusOK then Returned (Some (UnexpectedStatus st), h)
           else if rf then Returned (Some ReadError, h)
           else (case body of
                   None \<Rightarrow> Returned (Some UnmarshalError, h)
                 | Some repo \<Rightarrow>
                     (case pathNames repo [] of
                        Panic p \<Rightarrow> Panic p
                      | Returned ps \<Rightarrow> Returned (None, h\<lparr>paths := ps\<rparr>)))),
      [ReqContentsIBC])"

subsection \<open>Documents: getChain, getAssetList, getPath\<close>

text \<open>
  Each of the three returns the error (\<open>None\<close> for \<^verbatim>\<open>nil\<close>) and the handler as it
  has left it, beside the request it has made.
\<close>

definition getChain :: "world \<Rightarrow> string \<Rightarrow> Handler \<Rightarrow> (error option \<times> Handler) \<times> request list" where
  "getChain w name h =
     ((case chainJson w name of
         GetFailed \<Rightarrow> (Some GetError, h)
       | Response st rf body \<Rightarrow>
           if st = StatusNotFound then (None, h)
           else if st \<noteq> StatusOK then (Some (UnexpectedStatus st), h)
           else if rf then (Some ReadError, h)
           else (case body of
                   None \<Rightarrow> (Some UnmarshalError, h)
                 | Some chain \<Rightarrow>
                     (None,
                      h\<lparr>chainList := (chainList h)(name \<mapsto> chain),
                        chainById := (chainById h)(Chain.ChainID chain \<mapsto> name)\<rparr>))),
      [ReqChainJson name])"

definition getAssetList :: "world \<Rightarrow> string \<Rightarrow> Handler \<Rightarrow> (error option \<times> Handler) \<times> request list" where
  "getAssetList w name h =
     ((case assetlistJson w name of
         GetFailed \<Rightarrow> (Some GetError, h)
       | Response st rf body \<Rightarrow>
           if st = StatusNotFound then (None, h)
           else if st \<noteq> StatusOK then (Some (UnexpectedStatus st), h)
           else if rf then (Some ReadError, h)
           else (case body of
                   None \<Rightarrow> (Some UnmarshalError, h)
                 | Some al \<Rightarrow> (None, h\<lparr>assetList := (assetList h)(name \<mapsto> al)\<rparr>))),
      [ReqAssetlistJson name])"

text \<open>
  \<^verbatim>\<open>h.pathsByTag[tag][value] = append(h.pathsByTag[tag][value], path)\<close>. Reading a
  missing key gives the nil map, reading the nil map gives the nil slice, and the
  assignment to an entry of the nil map panics.
\<close>

definition appendTag :: "string \<Rightarrow> string \<Rightarrow> Path \<Rightarrow> Handler \<Rightarrow> Handler run" where
  "appendTag tag val path h =
     (case pathsByTag h tag of
        None \<Rightarrow> Panic NilMapAssignment
      | Some byTag \<Rightarrow>
          Returned (h\<lparr>pathsByTag := (pathsByTag h)
            (tag \<mapsto> byTag(val \<mapsto> (case byTag val of None \<Rightarrow> [] | Some ps \<Rightarrow> ps) @ [path]))\<rparr>))"

text \<open>The body of the loop over the channels of a path, in the order of the source.\<close>

definition indexChannel :: "Path \<Rightarrow> Channel \<Rightarrow> Handler \<Rightarrow> Handler run" where
  "indexChannel path channel h =
     (case (if length (Dex (Tags channel)) > 0
            then appendTag DEX (Dex (Tags channel)) path h else Returned h) of
        Panic p \<Rightarrow> Panic p
      | Returned h1 \<Rightarrow>
     (case appendTag PREFERRED (FormatBool (Preferred (Tags channel))) path h1 of
        Panic p \<Rightarrow> Panic p
      | Returned h2 \<Rightarrow>
     (case (if length (Properties (Tags channel)) > 0
            then appendTag PROPERTIES (Properties (Tags channel)) path h2 else Returned h2) of
        Panic p \<Rightarrow> Panic p
      | Returned h3 \<Rightarrow>
          (if length (Status (Tags channel)) > 0
           then appendTag STATUS (Status (Tags channel)) path h3 else Returned h3))))"

fun indexChannels :: "Path \<Rightarrow> Channel list \<Rightarrow> Handler \<Rightarrow> Handler run" where
  "indexChannels path [] h = Returned h"
| "indexChannels path (c # cs) h =
     (case indexChannel path c h of
        Panic p \<Rightarrow> Panic p
      | Returned h' \<Rightarrow> indexChannels path cs h')"

definition getPath :: "world \<Rightarrow> string \<Rightarrow> string \<Rightarrow> Handler \<Rightarrow> (error option \<times> Handler) run \<times> request list" where
  "getPath w chain1Name chain2Name h =
     (let name = getPathName chain1Name chain2Name in
      ((case pathJson w name of
          GetFailed \<Rightarrow> Returned (Some GetError, h)
        | Response st rf body \<Rightarrow>
            if st = StatusNotFound then Returned (None, h)
            else if st \<noteq> StatusOK then Returned (Some (UnexpectedStatus st), h)
            else if rf then Returned (Some ReadError, h)
            else (case body of
                    None \<Rightarrow> Returned (Some UnmarshalError, h)
                  | Some path \<Rightarrow>
                      (case indexChannels path (Channels path)
                              (h\<lparr>pathList := (pathList h)(name \<mapsto> path)\<rparr>) of
                         Panic p \<Rightarrow> Panic p
                       | Returned h' \<Rightarrow> Returned (None, h')))),
       [ReqPathJson name]))"

subsection \<open>Pull\<close>

text \<open>The loop over \<^verbatim>\<open>h.chains\<close>: the chain document, then the asset list, of each.\<close>

fun pullChains :: "world \<Rightarrow> string list \<Rightarrow> Handler \<Rightarrow> (error option \<times> Handler) \<times> request list" where
  "pullChains w [] h = ((None, h), [])"
| "pullChains w (chain # cs) h =
     (case getChain w chain h of
        ((Some err, h1), r1) \<Rightarrow> ((Some err, h1), r1)
      | ((None, h1), r1) \<Rightarrow>
          (case getAssetList w chain h1 of
             ((Some err, h2), r2) \<Rightarrow> ((Some err, h2), r1 @ r2)
           | ((None, h2), r2) \<Rightarrow>
               (case pullChains w cs h2 of (res, r3) \<Rightarrow> (res, r1 @ r2 @ r3))))"

text \<open>
  The loop over \<^verbatim>\<open>h.paths\<close>: each name is split at \<^verbatim>\<open>"-"\<close> and the first two
  pieces are indexed, with no check that there are two.
\<close>

fun pullPaths :: "world \<Rightarrow> string list \<Rightarrow> Handler \<Rightarrow> (error option \<times> Handler) run \<times> request list" where
  "pullPaths w [] h = (Returned (None, h), [])"
| "pullPaths w (path # ps) h =
     (case Split path CHR ''-'' of
        n0 # n1 # _ \<Rightarrow>
          (case getPath w n0 n1 h of
             (Panic p, r1) \<Rightarrow> (Panic p, r1)
           | (Returned (Some err, h1), r1) \<Rightarrow> (Returned (Some err, h1), r1)
           | (Returned (None, h1), r1) \<Rightarrow>
               (case pullPaths w ps h1 of (res, r2) \<Rightarrow> (res, r1 @ r2)))
      | _ \<Rightarrow> (Panic IndexOutOfRange, []))"

text \<open>
  The index of the assets by display name. The slice \<^verbatim>\<open>assets\<close> that the loop also
  fills is a local variable that is dropped: \<^verbatim>\<open>h.assets\<close> is not assigned.
\<close>

definition indexAssetList :: "AssetList \<Rightarrow> Handler \<Rightarrow> Handler" where
  "indexAssetList al h =
     (let name = (case chainById h (AssetList.ChainID al) of None \<Rightarrow> [] | Some n \<Rightarrow> n)
      in h\<lparr>chainByAsset :=
             fold (\<lambda>asset m. m(Display asset \<mapsto> name)) (Assets al) (chainByAsset h)\<rparr>)"

definition indexAssets :: "string list \<Rightarrow> Handler \<Rightarrow> Handler" where
  "indexAssets ks h =
     fold (\<lambda>k h'. case assetList h' k of None \<Rightarrow> h' | Some al \<Rightarrow> indexAssetList al h') ks h"

definition Pull :: "world \<Rightarrow> Handler \<Rightarrow> (error option \<times> Handler) run \<times> request list" where
  "Pull w h =
     (case recentCommits w h of
        ((_, Some err), r0) \<Rightarrow> (Returned (Some err, h), r0)
      | ((False, None), r0) \<Rightarrow> (Returned (None, h\<lparr>lastUpdated := now w\<rparr>), r0)
      | ((True, None), r0) \<Rightarrow>
     (case getChains w h of
        (Panic p, r1) \<Rightarrow> (Panic p, r0 @ r1)
      | (Returned (Some err, h1), r1) \<Rightarrow> (Returned (Some err, h1), r0 @ r1)
      | (Returned (None, h1), r1) \<Rightarrow>
     (case getPaths w h1 of
        (Panic p, r2) \<Rightarrow> (Panic p, r0 @ r1 @ r2)
      | (Returned (Some err, h2), r2) \<Rightarrow> (Returned (Some err, h2), r0 @ r1 @ r2)
      | (Returned (None, h2), r2) \<Rightarrow>
     (case pullChains w (chains h2) h2 of
        ((Some err, h3), r3) \<Rightarrow> (Returned (Some err, h3), r0 @ r1 @ r2 @ r3)
      | ((None, h3), r3) \<Rightarrow>
     (case pullPaths w (paths h3) h3 of
        (Panic p, r4) \<Rightarrow> (Panic p, r0 @ r1 @ r2 @ r3 @ r4)
      | (Returned (Some err, h4), r4) \<Rightarrow> (Returned (Some err, h4), r0 @ r1 @ r2 @ r3 @ r4)
      | (Returned (None, h4), r4) \<Rightarrow>
          (Returned (None, (indexAssets (assetListOrder w) h4)\<lparr>lastUpdated := now w\<rparr>),
           r0 @ r1 @ r2 @ r3 @ r4))))))"

section \<open>Notions used in the statements\<close>

text \<open>
  Two properties of the handler that a pass keeps: every name stored under a chain
  identifier has a chain document, and the tag index has its four keys and no other.
\<close>

definition idsResolve :: "Handler \<Rightarrow> bool" where
  "idsResolve h = (\<forall>i n. chainById h i = Some n \<longrightarrow> chainList h n \<noteq> None)"

definition tagKeys :: "Handler \<Rightarrow> bool" where
  "tagKeys h = (dom (pathsByTag h) = {DEX, PREFERRED, PROPERTIES, STATUS})"

text \<open>The states of the handler: a new handler, and what a pass that returns leaves.\<close>

inductive reachable :: "Handler \<Rightarrow> bool" where
  new: "reachable (NewHandler url)"
| pull: "reachable h \<Longrightarrow> Pull w h = (Returned (e, h'), r) \<Longrightarrow> reachable h'"

text \<open>
  \<^verbatim>\<open>h.pathsByTag[tag][val]\<close> as Go reads it: a missing key gives the nil map, and a
  missing value the nil slice.
\<close>

definition bucket :: "Handler \<Rightarrow> string \<Rightarrow> string \<Rightarrow> Path list" where
  "bucket h tag val =
     (case pathsByTag h tag of None \<Rightarrow> []
      | Some byTag \<Rightarrow> (case byTag val of None \<Rightarrow> [] | Some ps \<Rightarrow> ps))"

text \<open>A channel contributes its path to the bucket of \<open>val\<close> under \<open>tag\<close>.\<close>

definition tagged :: "string \<Rightarrow> string \<Rightarrow> Channel \<Rightarrow> bool" where
  "tagged tag val c =
     (tag = DEX \<and> val = Dex (Tags c) \<and> val \<noteq> []
      \<or> tag = PREFERRED \<and> val = FormatBool (Preferred (Tags c))
      \<or> tag = PROPERTIES \<and> val = Properties (Tags c) \<and> val \<noteq> []
      \<or> tag = STATUS \<and> val = Status (Tags c) \<and> val \<noteq> [])"

text \<open>
  A response that makes a document fetch fail: the request fails, the status is neither
  200 nor 404, the body cannot be read, or its bytes do not decode. A request of a pass
  for a document whose response is of that kind.
\<close>

definition hardFailure :: "'a response \<Rightarrow> bool" where
  "hardFailure resp =
     (case resp of
        GetFailed \<Rightarrow> True
      | Response st rf body \<Rightarrow> st \<noteq> StatusNotFound \<and> (st \<noteq> StatusOK \<or> rf \<or> body = None))"

definition failedDocument :: "world \<Rightarrow> request \<Rightarrow> bool" where
  "failedDocument w req =
     (case req of
        ReqChainJson name \<Rightarrow> hardFailure (chainJson w name)
      | ReqAssetlistJson name \<Rightarrow> hardFailure (assetlistJson w name)
      | ReqPathJson name \<Rightarrow> hardFailure (pathJson w name)
      | _ \<Rightarrow> False)"

text \<open>What every step of a pass before the final index of the assets leaves as it is.\<close>

definition passKeeps :: "Handler \<Rightarrow> Handler \<Rightarrow> bool" where
  "passKeeps h h' =
     (lastUpdated h' = lastUpdated h \<and> chainByAsset h' = chainByAsset h \<and> assets h' = assets h
      \<and> registryUrl h' = registryUrl h \<and> dom (pathsByTag h') = dom (pathsByTag h)
      \<and> (idsResolve h \<longrightarrow> idsResolve h'))"

text \<open>
  The entries of the listing of \<^verbatim>\<open>_IBC\<close> that \<^verbatim>\<open>getPaths\<close> keeps and the name it
  keeps them under; a listing whose entries pass the type assertions.
\<close>

definition keptPath :: "entry \<Rightarrow> bool" where
  "keptPath e = (entryType e = Some ''file'' \<and>
     (case entryName e of None \<Rightarrow> False
      | Some name \<Rightarrow> Contains name ''.json'' \<and> Contains name ''-''))"

definition pathDocName :: "entry \<Rightarrow> string" where
  "pathDocName e = (case entryName e of None \<Rightarrow> [] | Some name \<Rightarrow> takeWhile (\<lambda>c. c \<noteq> CHR ''.'') name)"

definition wellTyped :: "string \<Rightarrow> entry \<Rightarrow> bool" where
  "wellTyped t e = (entryType e \<noteq> None \<and> (entryType e = Some t \<longrightarrow> entryName e \<noteq> None))"

section \<open>An example registry\<close>

text \<open>
  Two chains and the path between them, with two channels that carry the same tags; a
  remote source that serves them; one whose \<^verbatim>\<open>chain.json\<close> for the second chain
  answers with status 500; one whose listing of \<^verbatim>\<open>_IBC\<close> has other files too; and the
  handler after a pass over the first.
\<close>

definition cosmoshub :: Chain where
  "cosmoshub = \<lparr>Chain.ChainID = ''cosmoshub-4'', Name = ''cosmoshub'', RPC = [], Grpc = [],
     REST = [], PersistentPeers = [], Seeds = []\<rparr>"

definition osmosis :: Chain where
  "osmosis = \<lparr>Chain.ChainID = ''osmosis-1'', Name = ''osmosis'', RPC = [], Grpc = [],
     REST = [], PersistentPeers = [], Seeds = []\<rparr>"

definition transfer :: "string \<Rightarrow> string \<Rightarrow> Channel" where
  "transfer c1 c2 =
     \<lparr>Channel.Chain1 = \<lparr>ChannelID = c1, PortID = ''transfer''\<rparr>,
      Channel.Chain2 = \<lparr>ChannelID = c2, PortID = ''transfer''\<rparr>,
      Ordering = ''unordered'', Version = ''ics20-1'',
      Tags = \<lparr>Status = ''live'', Preferred = True, Dex = ''osmosis'', Properties = []\<rparr>\<rparr>"

definition hubOsmosis :: Path where
  "hubOsmosis =
     \<lparr>Chain1 = \<lparr>ChainName = ''cosmoshub'', ClientID = ''07-tendermint-259'',
                 ConnectionID = ''connection-257''\<rparr>,
      Chain2 = \<lparr>ChainName = ''osmosis'', ClientID = ''07-tendermint-1'',
                 ConnectionID = ''connection-1''\<rparr>,
      Channels = [transfer ''channel-141'' ''channel-0'', transfer ''channel-999'' ''channel-998'']\<rparr>"

definition dirEntry :: "string \<Rightarrow> entry" where
  "dirEntry name = \<lparr>entryType = Some ''dir'', entryName = Some name\<rparr>"

definition fileEntry :: "string \<Rightarrow> entry" where
  "fileEntry name = \<lparr>entryType = Some ''file'', entryName = Some name\<rparr>"

definition registry :: world where
  "registry =
     \<lparr>commits = (\<lambda>since. Response 200 False (Some [()])),
      contents = Response 200 False
        (Some [dirEntry ''.github'', dirEntry ''_IBC'', dirEntry ''cosmoshub'', dirEntry ''osmosis'',
               dirEntry ''testnets'', fileEntry ''README.md'']),
      contentsIBC = Response 200 False
        (Some [fileEntry ''README.md'', fileEntry ''cosmoshub-osmosis.json'']),
      chainJson = (\<lambda>name. if name = ''cosmoshub'' then Response 200 False (Some cosmoshub)
                          else if name = ''osmosis'' then Response 200 False (Some osmosis)
                          else Response 404 False None),
      assetlistJson = (\<lambda>name. Response 404 False None),
      pathJson = (\<lambda>name. if name = ''cosmoshub-osmosis'' then Response 200 False (Some hubOsmosis)
                         else Response 404 False None),
      now = 1700000000,
      assetListOrder = []\<rparr>"

definition brokenRegistry :: world where
  "brokenRegistry =
     registry\<lparr>chainJson := (\<lambda>name. if name = ''cosmoshub'' then Response 200 False (Some cosmoshub)
                                   else if name = ''osmosis'' then Response 500 False None
                                   else Response 404 False None)\<rparr>"

definition oddRegistry :: world where
  "oddRegistry =
     registry\<lparr>contentsIBC := Response 200 False
       (Some [fileEntry ''cosmoshub-osmosis.json'', fileEntry ''a-b.txt'', fileEntry ''v1.a-b.json'',
              dirEntry ''x-y.json''])\<rparr>"

definition mirrored :: Handler where
  "mirrored =
     \<lparr>registryUrl = ''cosmos/chain-registry'', lastUpdated = 1700000000,
      chains = [''_IBC'', ''cosmoshub'', ''osmosis''], assets = [], paths = [''cosmoshub-osmosis''],
      chainByAsset = Map.empty,
      chainById = [''cosmoshub-4'' \<mapsto> ''cosmoshub'', ''osmosis-1'' \<mapsto> ''osmosis''],
      pathsByTag = [''dex'' \<mapsto> [''osmosis'' \<mapsto> [hubOsmosis, hubOsmosis]],
                    ''preferred'' \<mapsto> [''true'' \<mapsto> [hubOsmosis, hubOsmosis]],
                    ''properties'' \<mapsto> Map.empty,
                    ''status'' \<mapsto> [''live'' \<mapsto> [hubOsmosis, hubOsmosis]]],
      chainList = [''cosmoshub'' \<mapsto> cosmoshub, ''osmosis'' \<mapsto> osmosis],
      assetList = Map.empty,
      pathList = [''cosmoshub-osmosis'' \<mapsto> hubOsmosis]\<rparr>"

definition halfMirrored :: Handler where
  "halfMirrored =
     (NewHandler ''cosmos/chain-registry'')
       \<lparr>chains := [''_IBC'', ''cosmoshub'', ''osmosis''], paths := [''cosmoshub-osmosis''],
        chainById := [''cosmoshub-4'' \<mapsto> ''cosmoshub''],
        chainList := [''cosmoshub'' \<mapsto> cosmoshub]\<rparr>"

section \<open>Facts about the string functions\<close>

lemma Compare_one: "Compare a b = 1 \<longleftrightarrow> b < a"
  by (auto simp: Compare_def)

lemma Split_nonempty: "Split s sep \<noteq> []"
  by (induction s) (auto split: list.splits)

lemma Split_head: "Split s sep = x # xs \<Longrightarrow> x = takeWhile (\<lambda>c. c \<noteq> sep) s"
  by (induction s arbitrary: x xs) (auto simp: Split_nonempty split: if_splits list.splits)

lemma Split_no_sep: "sep \<notin> set s \<Longrightarrow> Split s sep = [s]"
  by (induction s) auto

lemma Split_append: "sep \<notin> set a \<Longrightarrow> Split (a @ sep # b) sep = a # Split b sep"
  by (induction a) auto

section \<open>The canonical path name\<close>

lemma getPathName_min_max: "getPathName a b = min a b @ ''-'' @ max a b"
  by (auto simp: getPathName_def Compare_one min_def max_def)

text \<open>
  The request handler is given the two names joined by a hyphen. The names it takes
  from the split have no hyphen of their own.
\<close>

lemma Path_handler_symmetric:
  assumes "CHR ''-'' \<notin> set a" "CHR ''-'' \<notin> set b"
  shows "Path_handler h [''path'' \<mapsto> a @ ''-'' @ b] = Path_handler h [''path'' \<mapsto> b @ ''-'' @ a]"
  using assms getPathName_min_max[of a b] getPathName_min_max[of b a]
  by (simp add: Path_handler_def Split_append Split_no_sep min.commute max.commute)

text \<open>
  C2. For every pair of chain names the canonical path name is the same in either order
  of the arguments, and it puts the lexicographically smaller name first; hence, in
  every state of the handler, the lookup of the path of \<open>a\<close> and \<open>b\<close> and the lookup of
  the path of \<open>b\<close> and \<open>a\<close> give the same result. So does the request handler, which
  is given the two names joined by a hyphen and takes them apart again, for names that
  have no hyphen of their own.
\<close>

theorem getPathName_symmetric:
  "getPathName a b = getPathName b a
   \<and> getPathName a b = min a b @ ''-'' @ max a b
   \<and> findPath h (getPathName a b) = findPath h (getPathName b a)
   \<and> (CHR ''-'' \<notin> set a \<and> CHR ''-'' \<notin> set b \<longrightarrow>
        Path_handler h [''path'' \<mapsto> a @ ''-'' @ b] = Path_handler h [''path'' \<mapsto> b @ ''-'' @ a])"
proof -
  have "getPathName a b = getPathName b a"
    by (simp add: getPathName_min_max min.commute max.commute)
  then show ?thesis
    using Path_handler_symmetric[of a b h] by (simp add: getPathName_min_max)
qed

text \<open>The two orders of the example pair give the one name, and the one path.\<close>

theorem getPathName_symmetric_witness:
  "getPathName ''osmosis'' ''cosmoshub'' = ''cosmoshub-osmosis''
   \<and> getPathName ''cosmoshub'' ''osmosis'' = ''cosmoshub-osmosis''
   \<and> Path_handler mirrored [''path'' \<mapsto> ''osmosis-cosmoshub'']
       = Returned [WriteHeader 200, Write (JPath hubOsmosis)]"
proof -
  have n: "getPathName ''cosmoshub'' ''osmosis'' = ''cosmoshub-osmosis''"
    by (simp add: getPathName_def Compare_def less_char_def)
  have p: "Path_handler mirrored [''path'' \<mapsto> ''cosmoshub'' @ ''-'' @ ''osmosis'']
       = Returned [WriteHeader 200, Write (JPath hubOsmosis)]"
    by (simp add: Path_handler_def n findPath_def mirrored_def respondWithJSON_def StatusOK_def)
  have "CHR ''-'' \<notin> set ''osmosis'' \<and> CHR ''-'' \<notin> set ''cosmoshub''" by simp
  with getPathName_symmetric[of "''osmosis''" "''cosmoshub''" mirrored] n p
  show ?thesis by simp
qed

text \<open>
  C10. A requested path string without a hyphen makes the handler index the second
  element of a split of one element: it panics with an index out of range, and writes
  neither a bad request nor a not found.
\<close>

theorem Path_handler_no_hyphen:
  "CHR ''-'' \<notin> set pathName \<Longrightarrow> vars ''path'' = Some pathName \<Longrightarrow> Path_handler h vars = Panic IndexOutOfRange"
  by (simp add: Path_handler_def Split_no_sep)

text \<open>The name of a single chain as the requested path.\<close>

theorem Path_handler_no_hyphen_witness:
  "CHR ''-'' \<notin> set ''cosmoshub''
   \<and> Path_handler mirrored [''path'' \<mapsto> ''cosmoshub''] = Panic IndexOutOfRange"
  using Path_handler_no_hyphen[of "''cosmoshub''" "[''path'' \<mapsto> ''cosmoshub'']" mirrored]
  by simp

section \<open>Chains and asset lists by name or identifier\<close>

text \<open>
  The name stored under an identifier always has a chain document: the pass stores the
  two together.
\<close>

lemma findChain_by_id_resolves:
  "idsResolve h \<Longrightarrow> chainList h key = None \<Longrightarrow> chainById h key = Some n \<Longrightarrow>
     \<exists>c. chainList h n = Some c \<and> findChain h key = (True, c)"
  by (auto simp: findChain_def idsResolve_def split: option.splits)

lemma idsResolve_NewHandler: "idsResolve (NewHandler url)"
  by (simp add: idsResolve_def NewHandler_def)

text \<open>
  C3. In every state of the handler and for every key, the lookup of a chain tries the
  key as a chain name first and as a chain identifier second and returns the chain it
  resolves to; it is not found exactly when the key is neither a loaded chain name nor
  a loaded chain identifier, and then the handler answers with not found.
\<close>

theorem findChain_two_stage:
  "(\<forall>c. chainList h key = Some c \<longrightarrow> findChain h key = (True, c))
   \<and> (\<forall>n c. chainList h key = None \<and> chainById h key = Some n \<and> chainList h n = Some c
          \<longrightarrow> findChain h key = (True, c))
   \<and> (\<forall>n. idsResolve h \<and> chainList h key = None \<and> chainById h key = Some n
          \<longrightarrow> (\<exists>c. chainList h n = Some c \<and> findChain h key = (True, c)))
   \<and> (findChain h key = (False, zeroChain)
        \<longleftrightarrow> key \<notin> dom (chainList h) \<and> key \<notin> dom (chainById h))
   \<and> (fst (findChain h key) \<longleftrightarrow> key \<in> dom (chainList h) \<or> key \<in> dom (chainById h))
   \<and> Chain_handler h [''chain'' \<mapsto> key] =
       (if key \<in> dom (chainList h) \<or> key \<in> dom (chainById h)
        then respondWithJSON [] (JChain (snd (findChain h key)))
        else resourceNotFound [])"
proof -
  have "\<forall>n. idsResolve h \<and> chainList h key = None \<and> chainById h key = Some n
          \<longrightarrow> (\<exists>c. chainList h n = Some c \<and> findChain h key = (True, c))"
    using findChain_by_id_resolves[of h key] by blast
  moreover have "(\<forall>c. chainList h key = Some c \<longrightarrow> findChain h key = (True, c))
   \<and> (\<forall>n c. chainList h key = None \<and> chainById h key = Some n \<and> chainList h n = Some c
          \<longrightarrow> findChain h key = (True, c))
   \<and> (findChain h key = (False, zeroChain)
        \<longleftrightarrow> key \<notin> dom (chainList h) \<and> key \<notin> dom (chainById h))
   \<and> (fst (findChain h key) \<longleftrightarrow> key \<in> dom (chainList h) \<or> key \<in> dom (chainById h))
   \<and> Chain_handler h [''chain'' \<mapsto> key] =
       (if key \<in> dom (chainList h) \<or> key \<in> dom (chainById h)
        then respondWithJSON [] (JChain (snd (findChain h key)))
        else resourceNotFound [])"
    by (auto simp: findChain_def Chain_handler_def split: option.splits)
  ultimately show ?thesis by blast
qed

text \<open>A name, an identifier and a key that is neither, in the example handler.\<close>

theorem findChain_two_stage_witness:
  "findChain mirrored ''cosmoshub'' = (True, cosmoshub)
   \<and> findChain mirrored ''osmosis-1'' = (True, osmosis)
   \<and> fst (findChain mirrored ''juno'') = False"
proof -
  have a: "chainList mirrored ''cosmoshub'' = Some cosmoshub"
    and b: "chainList mirrored ''osmosis-1'' = None \<and> chainById mirrored ''osmosis-1'' = Some ''osmosis''
            \<and> chainList mirrored ''osmosis'' = Some osmosis"
    and c: "''juno'' \<notin> dom (chainList mirrored)" "''juno'' \<notin> dom (chainById mirrored)"
    by (simp_all add: mirrored_def)
  from findChain_two_stage[of mirrored "''cosmoshub''"] a
  have "findChain mirrored ''cosmoshub'' = (True, cosmoshub)" by blast
  moreover from findChain_two_stage[of mirrored "''osmosis-1''"] b
  have "findChain mirrored ''osmosis-1'' = (True, osmosis)" by blast
  moreover from findChain_two_stage[of mirrored "''juno''"] c
  have "fst (findChain mirrored ''juno'') = False" by blast
  ultimately show ?thesis by blast
qed

text \<open>Whatever the key, the lookup of an asset list never answers with not found.\<close>

lemma ChainAsset_never_not_found: "WriteHeader StatusNotFound \<notin> set (ChainAsset h vars)"
  by (auto simp: ChainAsset_def badRequest_def respondWithJSON_def StatusNotFound_def
      StatusOK_def StatusBadRequest_def split: option.splits)

text \<open>
  C4. The lookup of an asset list resolves its key as the lookup of a chain does, and is
  to answer not found for a key that is neither a name nor an identifier. For such a key
  the handler writes the status of a bad request and, with no return after it, goes on
  to write status 200 and the JSON of an empty asset list.
\<close>

theorem ChainAsset_unresolved:
  "ChainAsset (NewHandler ''r'') [''chain'' \<mapsto> ''nochain''] =
     [WriteHeader StatusBadRequest, WriteHeader StatusOK, Write (JAssetList zeroAssetList)]"
  by (simp add: ChainAsset_def NewHandler_def badRequest_def respondWithJSON_def)

section \<open>Paths by tag\<close>

lemma tag_names_distinct:
  "DEX \<noteq> PREFERRED" "DEX \<noteq> PROPERTIES" "DEX \<noteq> STATUS"
  "PREFERRED \<noteq> PROPERTIES" "PREFERRED \<noteq> STATUS" "PROPERTIES \<noteq> STATUS"
  by (simp_all add: DEX_def PREFERRED_def PROPERTIES_def STATUS_def)

lemma tagKeys_NewHandler: "tagKeys (NewHandler url)"
  by (auto simp: tagKeys_def NewHandler_def DEX_def PREFERRED_def PROPERTIES_def STATUS_def split: if_splits)


text \<open>
  C6, as the code has it. In a handler whose tag index has the four keys, a dimension
  that is none of the four makes the retrieval by tag panic for every non-empty value;
  with the empty value the retrieval returns all paths, before it looks at the
  dimension.
\<close>

theorem getPathsWithTag_unknown_tag:
  "tagKeys h \<Longrightarrow> tag \<notin> {DEX, PREFERRED, PROPERTIES, STATUS} \<Longrightarrow>
     (val \<noteq> [] \<longrightarrow> getPathsWithTag h ks tag val = Panic (MissingTagKey tag))
     \<and> getPathsWithTag h ks tag [] = Returned (rangeValues (pathList h) ks)"
  by (auto simp: getPathsWithTag_def tagKeys_def split: option.splits)

text \<open>An unknown dimension with a value, on the example handler.\<close>

theorem getPathsWithTag_unknown_tag_witness:
  "tagKeys mirrored \<and> ''bogus'' \<notin> {DEX, PREFERRED, PROPERTIES, STATUS}
   \<and> getPathsWithTag mirrored [''cosmoshub-osmosis''] ''bogus'' ''live''
       = Panic (MissingTagKey ''bogus'')
   \<and> getPathsWithTag mirrored [''cosmoshub-osmosis''] ''bogus'' [] = Returned [hubOsmosis]"
proof -
  have a: "tagKeys mirrored"
    by (auto simp: tagKeys_def mirrored_def DEX_def PREFERRED_def PROPERTIES_def STATUS_def
        split: if_splits)
  have b: "''bogus'' \<notin> {DEX, PREFERRED, PROPERTIES, STATUS}"
    by (simp add: DEX_def PREFERRED_def PROPERTIES_def STATUS_def)
  have c: "rangeValues (pathList mirrored) [''cosmoshub-osmosis''] = [hubOsmosis]"
    by (simp add: rangeValues_def map_filter_def mirrored_def)
  from getPathsWithTag_unknown_tag[OF a b, of "''live''" "[''cosmoshub-osmosis'']"] a b c
  show ?thesis by simp
qed

text \<open>With the empty value an unknown dimension returns, and does not panic.\<close>

theorem getPathsWithTag_empty_value_counterexample:
  "getPathsWithTag (NewHandler ''r'') [] ''bogus'' [] = Returned []"
  by (simp add: getPathsWithTag_def rangeValues_def map_filter_simps)



section \<open>Path discovery\<close>

lemma pathNames_kept:
  "\<forall>e \<in> set repo. wellTyped ''file'' e \<Longrightarrow>
     pathNames repo acc = Returned (acc @ map pathDocName (filter keptPath repo))"
proof (induction repo arbitrary: acc)
  case Nil
  then show ?case by simp
next
  case (Cons e es)
  then show ?case
    by (auto simp: wellTyped_def keptPath_def pathDocName_def Split_nonempty split: option.splits list.splits dest: Split_head)
qed

text \<open>
  C9, as the code has it. Path discovery keeps exactly the entries of the listing that
  are of type file and whose name contains \<^verbatim>\<open>.json\<close> and a hyphen, in the order of
  the listing, each under the part of its name before the first dot.
\<close>

theorem getPaths_keeps_json_files:
  assumes "contentsIBC w = Response StatusOK False (Some repo)"
    and "\<forall>e \<in> set repo. wellTyped ''file'' e"
  shows "getPaths w h =
     (Returned (None, h\<lparr>paths := map pathDocName (filter keptPath repo)\<rparr>), [ReqContentsIBC])"
  using assms pathNames_kept[of repo "[]"] by (simp add: getPaths_def)

text \<open>The listing with the other files: two entries are kept.\<close>

theorem getPaths_keeps_json_files_witness:
  "list_all (wellTyped ''file'')
     [fileEntry ''cosmoshub-osmosis.json'', fileEntry ''a-b.txt'', fileEntry ''v1.a-b.json'',
      dirEntry ''x-y.json'']
   \<and> getPaths oddRegistry (NewHandler ''cosmos/chain-registry'') =
       (Returned (None, (NewHandler ''cosmos/chain-registry'')\<lparr>paths := [''cosmoshub-osmosis'', ''v1'']\<rparr>),
        [ReqContentsIBC])"
proof -
  let ?repo = "[fileEntry ''cosmoshub-osmosis.json'', fileEntry ''a-b.txt'',
                fileEntry ''v1.a-b.json'', dirEntry ''x-y.json'']"
  have a: "contentsIBC oddRegistry = Response StatusOK False (Some ?repo)"
    by (simp add: oddRegistry_def StatusOK_def)
  have b: "\<forall>e \<in> set ?repo. wellTyped ''file'' e"
    by (simp add: wellTyped_def fileEntry_def dirEntry_def)
  have c: "map pathDocName (filter keptPath ?repo) = [''cosmoshub-osmosis'', ''v1'']"
    by (simp add: keptPath_def pathDocName_def fileEntry_def dirEntry_def)
  from getPaths_keeps_json_files[OF a b, of "NewHandler ''cosmos/chain-registry''"] b c
  show ?thesis by simp
qed

text \<open>
  A file whose name has a dot and a hyphen and is not kept, and a kept file whose name
  is cut at a dot that is not the one of the extension.
\<close>

theorem getPaths_dot_and_hyphen_counterexample:
  "contentsIBC oddRegistry = Response 200 False
     (Some [fileEntry ''cosmoshub-osmosis.json'', fileEntry ''a-b.txt'',
            fileEntry ''v1.a-b.json'', dirEntry ''x-y.json''])
   \<and> Contains ''a-b.txt'' ''.'' \<and> Contains ''a-b.txt'' ''-''
   \<and> getPaths oddRegistry mirrored =
       (Returned (None, mirrored\<lparr>paths := [''cosmoshub-osmosis'', ''v1'']\<rparr>), [ReqContentsIBC])"
  by (simp add: getPaths_def oddRegistry_def fileEntry_def dirEntry_def StatusOK_def)

section \<open>The tag index\<close>

lemma appendTag_frame:
  "appendTag tag val p h = Returned h' \<Longrightarrow>
     \<exists>m. h' = h\<lparr>pathsByTag := m\<rparr> \<and> dom m = dom (pathsByTag h)"
  by (auto simp: appendTag_def split: option.splits if_splits)

lemma appendTag_Returned:
  assumes "tag \<in> dom (pathsByTag h)"
  shows "\<exists>m. appendTag tag val p h = Returned (h\<lparr>pathsByTag := m\<rparr>)
           \<and> dom m = dom (pathsByTag h)
           \<and> (\<forall>t v. bucket (h\<lparr>pathsByTag := m\<rparr>) t v
                  = bucket h t v @ (if t = tag \<and> v = val then [p] else []))"
proof -
  from assms obtain byTag where b: "pathsByTag h tag = Some byTag" by auto
  let ?m = "(pathsByTag h)(tag \<mapsto> byTag(val \<mapsto> (case byTag val of None \<Rightarrow> [] | Some ps \<Rightarrow> ps) @ [p]))"
  have "appendTag tag val p h = Returned (h\<lparr>pathsByTag := ?m\<rparr>)"
    using b by (simp add: appendTag_def)
  moreover have "dom ?m = dom (pathsByTag h)"
    using b by auto
  moreover have "\<forall>t v. bucket (h\<lparr>pathsByTag := ?m\<rparr>) t v
                  = bucket h t v @ (if t = tag \<and> v = val then [p] else [])"
    using b by (simp add: bucket_def split: option.splits)
  ultimately show ?thesis by blast
qed

lemma indexChannel_Returned:
  assumes "{DEX, PREFERRED, PROPERTIES, STATUS} \<subseteq> dom (pathsByTag h)"
  shows "\<exists>m. indexChannel p c h = Returned (h\<lparr>pathsByTag := m\<rparr>)
           \<and> dom m = dom (pathsByTag h)
           \<and> (\<forall>t v. bucket (h\<lparr>pathsByTag := m\<rparr>) t v
                  = bucket h t v @ (if tagged t v c then [p] else []))"
proof -
  obtain m1 where m1: "(if length (Dex (Tags c)) > 0
            then appendTag DEX (Dex (Tags c)) p h else Returned h) = Returned (h\<lparr>pathsByTag := m1\<rparr>)"
      "dom m1 = dom (pathsByTag h)"
      "\<forall>t v. bucket (h\<lparr>pathsByTag := m1\<rparr>) t v
         = bucket h t v @ (if t = DEX \<and> v = Dex (Tags c) \<and> v \<noteq> [] then [p] else [])"
  proof (cases "Dex (Tags c) = []")
    case True
    show ?thesis by (rule that[of "pathsByTag h"]) (simp_all add: True)
  next
    case False
    from appendTag_Returned[of DEX h "Dex (Tags c)" p] assms
    obtain m where "appendTag DEX (Dex (Tags c)) p h = Returned (h\<lparr>pathsByTag := m\<rparr>)"
      "dom m = dom (pathsByTag h)"
      "\<forall>t v. bucket (h\<lparr>pathsByTag := m\<rparr>) t v
         = bucket h t v @ (if t = DEX \<and> v = Dex (Tags c) then [p] else [])"
      by auto
    then show ?thesis using False by (intro that[of m]) auto
  qed
  let ?h1 = "h\<lparr>pathsByTag := m1\<rparr>"
  have d1: "PREFERRED \<in> dom (pathsByTag ?h1)" using assms m1(2) by simp
  from appendTag_Returned[OF d1, of "FormatBool (Preferred (Tags c))" p]
  obtain m2 where m2: "appendTag PREFERRED (FormatBool (Preferred (Tags c))) p ?h1
         = Returned (h\<lparr>pathsByTag := m2\<rparr>)"
      "dom m2 = dom (pathsByTag h)"
      "\<forall>t v. bucket (h\<lparr>pathsByTag := m2\<rparr>) t v
         = bucket ?h1 t v @ (if t = PREFERRED \<and> v = FormatBool (Preferred (Tags c)) then [p] else [])"
    using m1(2) by auto
  let ?h2 = "h\<lparr>pathsByTag := m2\<rparr>"
  obtain m3 where m3: "(if length (Properties (Tags c)) > 0
            then appendTag PROPERTIES (Properties (Tags c)) p ?h2 else Returned ?h2)
          = Returned (h\<lparr>pathsByTag := m3\<rparr>)"
      "dom m3 = dom (pathsByTag h)"
      "\<forall>t v. bucket (h\<lparr>pathsByTag := m3\<rparr>) t v
         = bucket ?h2 t v @ (if t = PROPERTIES \<and> v = Properties (Tags c) \<and> v \<noteq> [] then [p] else [])"
  proof (cases "Properties (Tags c) = []")
    case True
    show ?thesis by (rule that[of m2]) (simp_all add: True m2(2))
  next
    case False
    have "PROPERTIES \<in> dom (pathsByTag ?h2)" using assms m2(2) by simp
    from appendTag_Returned[OF this, of "Properties (Tags c)" p]
    obtain m where "appendTag PROPERTIES (Properties (Tags c)) p ?h2 = Returned (h\<lparr>pathsByTag := m\<rparr>)"
      "dom m = dom (pathsByTag h)"
      "\<forall>t v. bucket (h\<lparr>pathsByTag := m\<rparr>) t v
         = bucket ?h2 t v @ (if t = PROPERTIES \<and> v = Properties (Tags c) then [p] else [])"
      using m2(2) by auto
    then show ?thesis using False by (intro that[of m]) auto
  qed
  let ?h3 = "h\<lparr>pathsByTag := m3\<rparr>"
  obtain m4 where m4: "(if length (Status (Tags c)) > 0
            then appendTag STATUS (Status (Tags c)) p ?h3 else Returned ?h3)
          = Returned (h\<lparr>pathsByTag := m4\<rparr>)"
      "dom m4 = dom (pathsByTag h)"
      "\<forall>t v. bucket (h\<lparr>pathsByTag := m4\<rparr>) t v
         = bucket ?h3 t v @ (if t = STATUS \<and> v = Status (Tags c) \<and> v \<noteq> [] then [p] else [])"
  proof (cases "Status (Tags c) = []")
    case True
    show ?thesis by (rule that[of m3]) (simp_all add: True m3(2))
  next
    case False
    have "STATUS \<in> dom (pathsByTag ?h3)" using assms m3(2) by simp
    from appendTag_Returned[OF this, of "Status (Tags c)" p]
    obtain m where "appendTag STATUS (Status (Tags c)) p ?h3 = Returned (h\<lparr>pathsByTag := m\<rparr>)"
      "dom m = dom (pathsByTag h)"
      "\<forall>t v. bucket (h\<lparr>pathsByTag := m\<rparr>) t v
         = bucket ?h3 t v @ (if t = STATUS \<and> v = Status (Tags c) then [p] else [])"
      using m3(2) by auto
    then show ?thesis using False by (intro that[of m]) auto
  qed
  have res: "indexChannel p c h = Returned (h\<lparr>pathsByTag := m4\<rparr>)"
    unfolding indexChannel_def using m1(1) m2(1) m3(1) m4(1) by simp
  have bk: "\<forall>t v. bucket (h\<lparr>pathsByTag := m4\<rparr>) t v
              = bucket h t v @ (if tagged t v c then [p] else [])"
  proof (intro allI)
    fix t v
    have "bucket (h\<lparr>pathsByTag := m4\<rparr>) t v
        = bucket h t v
          @ (if t = DEX \<and> v = Dex (Tags c) \<and> v \<noteq> [] then [p] else [])
          @ (if t = PREFERRED \<and> v = FormatBool (Preferred (Tags c)) then [p] else [])
          @ (if t = PROPERTIES \<and> v = Properties (Tags c) \<and> v \<noteq> [] then [p] else [])
          @ (if t = STATUS \<and> v = Status (Tags c) \<and> v \<noteq> [] then [p] else [])"
      using m1(3) m2(3) m3(3) m4(3) by simp
    also have "\<dots> = bucket h t v @ (if tagged t v c then [p] else [])"
      using tag_names_distinct by (auto simp: tagged_def)
    finally show "bucket (h\<lparr>pathsByTag := m4\<rparr>) t v
        = bucket h t v @ (if tagged t v c then [p] else [])" .
  qed
  from res m4(2) bk show ?thesis by blast
qed

lemma indexChannels_Returned:
  assumes "{DEX, PREFERRED, PROPERTIES, STATUS} \<subseteq> dom (pathsByTag h)"
  shows "\<exists>m. indexChannels p cs h = Returned (h\<lparr>pathsByTag := m\<rparr>)
           \<and> dom m = dom (pathsByTag h)
           \<and> (\<forall>t v. bucket (h\<lparr>pathsByTag := m\<rparr>) t v
                  = bucket h t v @ replicate (length (filter (tagged t v) cs)) p)"
  using assms
proof (induction cs arbitrary: h)
  case Nil
  show ?case by (rule exI[of _ "pathsByTag h"]) simp
next
  case (Cons c cs)
  from indexChannel_Returned[OF Cons.prems, of p c]
  obtain m1 where m1: "indexChannel p c h = Returned (h\<lparr>pathsByTag := m1\<rparr>)"
      "dom m1 = dom (pathsByTag h)"
      "\<forall>t v. bucket (h\<lparr>pathsByTag := m1\<rparr>) t v
         = bucket h t v @ (if tagged t v c then [p] else [])"
    by blast
  let ?h1 = "h\<lparr>pathsByTag := m1\<rparr>"
  from Cons.prems m1(2) have "{DEX, PREFERRED, PROPERTIES, STATUS} \<subseteq> dom (pathsByTag ?h1)"
    by simp
  from Cons.IH[OF this]
  obtain m2 where m2: "indexChannels p cs ?h1 = Returned (h\<lparr>pathsByTag := m2\<rparr>)"
      "dom m2 = dom (pathsByTag h)"
      "\<forall>t v. bucket (h\<lparr>pathsByTag := m2\<rparr>) t v
         = bucket ?h1 t v @ replicate (length (filter (tagged t v) cs)) p"
    using m1(2) by auto
  have "indexChannels p (c # cs) h = Returned (h\<lparr>pathsByTag := m2\<rparr>)"
    using m1(1) m2(1) by simp
  moreover have "\<forall>t v. bucket (h\<lparr>pathsByTag := m2\<rparr>) t v
         = bucket h t v @ replicate (length (filter (tagged t v) (c # cs))) p"
    using m1(3) m2(3) by (simp add: replicate_app_Cons_same)
  ultimately show ?case using m2(2) by blast
qed

lemma indexChannel_frame:
  assumes "indexChannel p c h = Returned h'"
  shows "\<exists>m. h' = h\<lparr>pathsByTag := m\<rparr> \<and> dom m = dom (pathsByTag h)"
proof -
  have step: "\<And>g g' tag val b. (if b then appendTag tag val p g else Returned g) = Returned g' \<Longrightarrow>
      \<exists>m. g' = g\<lparr>pathsByTag := m\<rparr> \<and> dom m = dom (pathsByTag g)"
  proof -
    fix g g' tag val b
    assume a: "(if b then appendTag tag val p g else Returned g) = Returned g'"
    show "\<exists>m. g' = g\<lparr>pathsByTag := m\<rparr> \<and> dom m = dom (pathsByTag g)"
    proof (cases b)
      case True
      with a show ?thesis by (simp add: appendTag_frame)
    next
      case False
      with a have "g' = g\<lparr>pathsByTag := pathsByTag g\<rparr>" by simp
      then show ?thesis by blast
    qed
  qed
  from assms obtain h1 h2 h3 where
      s1: "(if length (Dex (Tags c)) > 0 then appendTag DEX (Dex (Tags c)) p h else Returned h) = Returned h1"
    and s2: "appendTag PREFERRED (FormatBool (Preferred (Tags c))) p h1 = Returned h2"
    and s3: "(if length (Properties (Tags c)) > 0
              then appendTag PROPERTIES (Properties (Tags c)) p h2 else Returned h2) = Returned h3"
    and s4: "(if length (Status (Tags c)) > 0
              then appendTag STATUS (Status (Tags c)) p h3 else Returned h3) = Returned h'"
    unfolding indexChannel_def by (simp split: run.splits)
  from step[OF s1] obtain m1 where m1: "h1 = h\<lparr>pathsByTag := m1\<rparr>" "dom m1 = dom (pathsByTag h)" by blast
  from appendTag_frame[OF s2] obtain m2 where m2: "h2 = h1\<lparr>pathsByTag := m2\<rparr>" "dom m2 = dom (pathsByTag h1)" by blast
  from step[OF s3] obtain m3 where m3: "h3 = h2\<lparr>pathsByTag := m3\<rparr>" "dom m3 = dom (pathsByTag h2)" by blast
  from step[OF s4] obtain m4 where m4: "h' = h3\<lparr>pathsByTag := m4\<rparr>" "dom m4 = dom (pathsByTag h3)" by blast
  have "h' = h\<lparr>pathsByTag := m4\<rparr>" using m1(1) m2(1) m3(1) m4(1) by simp
  moreover have "dom m4 = dom (pathsByTag h)" using m1 m2 m3 m4 by simp
  ultimately show ?thesis by blast
qed

lemma indexChannels_frame:
  "indexChannels p cs h = Returned h' \<Longrightarrow>
     \<exists>m. h' = h\<lparr>pathsByTag := m\<rparr> \<and> dom m = dom (pathsByTag h)"
proof (induction cs arbitrary: h)
  case Nil
  then have "h' = h\<lparr>pathsByTag := pathsByTag h\<rparr>" by simp
  then show ?case by blast
next
  case (Cons c cs)
  from Cons.prems obtain h1 where h1: "indexChannel p c h = Returned h1" "indexChannels p cs h1 = Returned h'"
    by (auto split: run.splits)
  from indexChannel_frame[OF h1(1)] obtain m1 where m1: "h1 = h\<lparr>pathsByTag := m1\<rparr>" "dom m1 = dom (pathsByTag h)"
    by blast
  from Cons.IH[OF h1(2)] obtain m2 where m2: "h' = h1\<lparr>pathsByTag := m2\<rparr>" "dom m2 = dom (pathsByTag h1)"
    by blast
  have "h' = h\<lparr>pathsByTag := m2\<rparr>" using m1(1) m2(1) by simp
  moreover have "dom m2 = dom (pathsByTag h)" using m1 m2 by simp
  ultimately show ?case by blast
qed

text \<open>
  C5. For a path taken in during a pass, every channel of it appends the whole path to
  the bucket of the preferred dimension under the string of its flag, whatever the flag
  is, and to the buckets of the dex, properties and status dimensions under its value
  exactly when that value is not the empty string. The path is appended once per
  channel: a path with several channels of one value is in that bucket several times.
\<close>

theorem getPath_indexes_tags:
  assumes "pathJson w (getPathName a b) = Response StatusOK False (Some p)"
    and "{DEX, PREFERRED, PROPERTIES, STATUS} \<subseteq> dom (pathsByTag h)"
  shows "\<exists>h'. getPath w a b h = (Returned (None, h'), [ReqPathJson (getPathName a b)])
     \<and> pathList h' = (pathList h)(getPathName a b \<mapsto> p)
     \<and> (\<forall>v. bucket h' PREFERRED v = bucket h PREFERRED v
            @ replicate (length (filter (\<lambda>c. FormatBool (Preferred (Tags c)) = v) (Channels p))) p)
     \<and> (\<forall>v. bucket h' DEX v = bucket h DEX v
            @ replicate (length (filter (\<lambda>c. Dex (Tags c) = v \<and> v \<noteq> []) (Channels p))) p)
     \<and> (\<forall>v. bucket h' PROPERTIES v = bucket h PROPERTIES v
            @ replicate (length (filter (\<lambda>c. Properties (Tags c) = v \<and> v \<noteq> []) (Channels p))) p)
     \<and> (\<forall>v. bucket h' STATUS v = bucket h STATUS v
            @ replicate (length (filter (\<lambda>c. Status (Tags c) = v \<and> v \<noteq> []) (Channels p))) p)"
proof -
  let ?n = "getPathName a b"
  let ?h0 = "h\<lparr>pathList := (pathList h)(?n \<mapsto> p)\<rparr>"
  have "{DEX, PREFERRED, PROPERTIES, STATUS} \<subseteq> dom (pathsByTag ?h0)"
    using assms(2) by simp
  from indexChannels_Returned[OF this, of p "Channels p"]
  obtain m where m: "indexChannels p (Channels p) ?h0 = Returned (?h0\<lparr>pathsByTag := m\<rparr>)"
      "\<forall>t v. bucket (?h0\<lparr>pathsByTag := m\<rparr>) t v
          = bucket ?h0 t v @ replicate (length (filter (tagged t v) (Channels p))) p"
    by blast
  let ?h' = "?h0\<lparr>pathsByTag := m\<rparr>"
  have run: "getPath w a b h = (Returned (None, ?h'), [ReqPathJson ?n])"
    using assms(1) m(1) by (simp add: getPath_def Let_def StatusOK_def StatusNotFound_def)
  have pl: "pathList ?h' = (pathList h)(?n \<mapsto> p)"
    by simp
  have b0: "\<And>t v. bucket ?h0 t v = bucket h t v"
    by (simp add: bucket_def)
  have t1: "\<And>v. tagged PREFERRED v = (\<lambda>c. FormatBool (Preferred (Tags c)) = v)"
    using tag_names_distinct by (auto simp: tagged_def fun_eq_iff)
  have t2: "\<And>v. tagged DEX v = (\<lambda>c. Dex (Tags c) = v \<and> v \<noteq> [])"
    using tag_names_distinct by (auto simp: tagged_def fun_eq_iff)
  have t3: "\<And>v. tagged PROPERTIES v = (\<lambda>c. Properties (Tags c) = v \<and> v \<noteq> [])"
    using tag_names_distinct by (auto simp: tagged_def fun_eq_iff)
  have t4: "\<And>v. tagged STATUS v = (\<lambda>c. Status (Tags c) = v \<and> v \<noteq> [])"
    using tag_names_distinct by (auto simp: tagged_def fun_eq_iff)
  from m(2) have bk: "\<And>t v. bucket ?h' t v = bucket h t v @ replicate (length (filter (tagged t v) (Channels p))) p"
    using b0 by simp
  have "pathList ?h' = (pathList h)(?n \<mapsto> p)
     \<and> (\<forall>v. bucket ?h' PREFERRED v = bucket h PREFERRED v
            @ replicate (length (filter (\<lambda>c. FormatBool (Preferred (Tags c)) = v) (Channels p))) p)
     \<and> (\<forall>v. bucket ?h' DEX v = bucket h DEX v
            @ replicate (length (filter (\<lambda>c. Dex (Tags c) = v \<and> v \<noteq> []) (Channels p))) p)
     \<and> (\<forall>v. bucket ?h' PROPERTIES v = bucket h PROPERTIES v
            @ replicate (length (filter (\<lambda>c. Properties (Tags c) = v \<and> v \<noteq> []) (Channels p))) p)
     \<and> (\<forall>v. bucket ?h' STATUS v = bucket h STATUS v
            @ replicate (length (filter (\<lambda>c. Status (Tags c) = v \<and> v \<noteq> []) (Channels p))) p)"
    using pl bk[of PREFERRED] bk[of DEX] bk[of PROPERTIES] bk[of STATUS]
    unfolding t1 t2 t3 t4 by blast
  with run show ?thesis by blast
qed

text \<open>The example path has two channels with the same tags, and is indexed twice.\<close>

theorem getPath_indexes_tags_witness:
  "pathJson registry (getPathName ''osmosis'' ''cosmoshub'') = Response StatusOK False (Some hubOsmosis)
   \<and> (case fst (getPath registry ''osmosis'' ''cosmoshub'' (NewHandler ''cosmos/chain-registry'')) of
         Returned (None, h') \<Rightarrow>
           bucket h' DEX ''osmosis'' = [hubOsmosis, hubOsmosis]
           \<and> bucket h' PREFERRED ''true'' = [hubOsmosis, hubOsmosis]
           \<and> bucket h' PREFERRED ''false'' = []
           \<and> bucket h' PROPERTIES [] = []
           \<and> bucket h' STATUS ''live'' = [hubOsmosis, hubOsmosis]
       | _ \<Rightarrow> False)"
proof -
  let ?h = "NewHandler ''cosmos/chain-registry''"
  have n: "getPathName ''osmosis'' ''cosmoshub'' = ''cosmoshub-osmosis''"
    by (simp add: getPathName_def Compare_def less_char_def)
  have a: "pathJson registry (getPathName ''osmosis'' ''cosmoshub'') = Response StatusOK False (Some hubOsmosis)"
    by (simp add: n registry_def StatusOK_def)
  have b: "{DEX, PREFERRED, PROPERTIES, STATUS} \<subseteq> dom (pathsByTag ?h)"
    by (simp add: NewHandler_def DEX_def PREFERRED_def PROPERTIES_def STATUS_def)
  have e: "\<And>t v. bucket ?h t v = []"
    by (simp add: bucket_def NewHandler_def)
  have c: "Channels hubOsmosis = [transfer ''channel-141'' ''channel-0'', transfer ''channel-999'' ''channel-998'']"
    by (simp add: hubOsmosis_def)
  have t: "\<And>x y. Tags (transfer x y) = \<lparr>Status = ''live'', Preferred = True, Dex = ''osmosis'', Properties = []\<rparr>"
    by (simp add: transfer_def)
  from getPath_indexes_tags[OF a b]
  obtain h' where h': "getPath registry ''osmosis'' ''cosmoshub'' ?h
        = (Returned (None, h'), [ReqPathJson (getPathName ''osmosis'' ''cosmoshub'')])"
    and p: "\<And>v. bucket h' PREFERRED v = bucket ?h PREFERRED v
            @ replicate (length (filter (\<lambda>c. FormatBool (Preferred (Tags c)) = v) (Channels hubOsmosis))) hubOsmosis"
    and d: "\<And>v. bucket h' DEX v = bucket ?h DEX v
            @ replicate (length (filter (\<lambda>c. Dex (Tags c) = v \<and> v \<noteq> []) (Channels hubOsmosis))) hubOsmosis"
    and q: "\<And>v. bucket h' PROPERTIES v = bucket ?h PROPERTIES v
            @ replicate (length (filter (\<lambda>c. Properties (Tags c) = v \<and> v \<noteq> []) (Channels hubOsmosis))) hubOsmosis"
    and s: "\<And>v. bucket h' STATUS v = bucket ?h STATUS v
            @ replicate (length (filter (\<lambda>c. Status (Tags c) = v \<and> v \<noteq> []) (Channels hubOsmosis))) hubOsmosis"
    by blast
  have "bucket h' DEX ''osmosis'' = [hubOsmosis, hubOsmosis]"
    by (simp add: d e c t)
  moreover have "bucket h' PREFERRED ''true'' = [hubOsmosis, hubOsmosis]"
    by (simp add: p e c t FormatBool_def)
  moreover have "bucket h' PREFERRED ''false'' = []"
    by (simp add: p e c t FormatBool_def)
  moreover have "bucket h' PROPERTIES [] = []"
    by (simp add: q e c t)
  moreover have "bucket h' STATUS ''live'' = [hubOsmosis, hubOsmosis]"
    by (simp add: s e c t)
  ultimately show ?thesis using a h' by simp
qed

section \<open>What a pass leaves as it is\<close>

lemma passKeeps_refl: "passKeeps h h"
  by (simp add: passKeeps_def)

lemma passKeeps_trans: "passKeeps h h1 \<Longrightarrow> passKeeps h1 h2 \<Longrightarrow> passKeeps h h2"
  by (simp add: passKeeps_def)

lemma getChains_keeps: "getChains w h = (Returned (e, h'), r) \<Longrightarrow> passKeeps h h'"
  by (auto simp: getChains_def passKeeps_def idsResolve_def
      split: response.splits if_splits option.splits run.splits)

lemma getPaths_keeps: "getPaths w h = (Returned (e, h'), r) \<Longrightarrow> passKeeps h h'"
  by (auto simp: getPaths_def passKeeps_def idsResolve_def
      split: response.splits if_splits option.splits run.splits)

lemma getChain_keeps: "getChain w name h = ((e, h'), r) \<Longrightarrow> passKeeps h h'"
  by (auto simp: getChain_def passKeeps_def idsResolve_def
      split: response.splits if_splits option.splits)

lemma getAssetList_keeps: "getAssetList w name h = ((e, h'), r) \<Longrightarrow> passKeeps h h'"
  by (auto simp: getAssetList_def passKeeps_def idsResolve_def
      split: response.splits if_splits option.splits)

lemma getPath_keeps:
  assumes "getPath w a b h = (Returned (e, h'), r)"
  shows "passKeeps h h'"
proof (cases "h' = h")
  case True
  then show ?thesis by (simp add: passKeeps_refl)
next
  case False
  with assms obtain p where
    "indexChannels p (Channels p) (h\<lparr>pathList := (pathList h)(getPathName a b \<mapsto> p)\<rparr>) = Returned h'"
    by (auto simp: getPath_def Let_def split: response.splits if_splits option.splits run.splits)
  from indexChannels_frame[OF this] obtain m where
    "h' = h\<lparr>pathList := (pathList h)(getPathName a b \<mapsto> p), pathsByTag := m\<rparr>"
    "dom m = dom (pathsByTag h)"
    by auto
  then show ?thesis
    by (simp add: passKeeps_def idsResolve_def)
qed

lemma pullChains_keeps: "pullChains w cs h = ((e, h'), r) \<Longrightarrow> passKeeps h h'"
proof (induction cs arbitrary: h r)
  case Nil
  then show ?case by (simp add: passKeeps_refl)
next
  case (Cons c cs)
  obtain e1 h1 r1 where g1: "getChain w c h = ((e1, h1), r1)" by (metis surj_pair)
  obtain e2 h2 r2 where g2: "getAssetList w c h1 = ((e2, h2), r2)" by (metis surj_pair)
  obtain res r3 where g3: "pullChains w cs h2 = (res, r3)" by (metis surj_pair)
  note k1 = getChain_keeps[OF g1] and k2 = getAssetList_keeps[OF g2]
  show ?case
  proof (cases e1)
    case (Some err)
    with Cons.prems g1 k1 show ?thesis by simp
  next
    case None
    show ?thesis
    proof (cases e2)
      case (Some err)
      with Cons.prems g1 g2 None passKeeps_trans[OF k1 k2] show ?thesis by simp
    next
      case n2: None
      with Cons.prems g1 g2 g3 None have "res = (e, h')" by simp
      with g3 Cons.IH have "passKeeps h2 h'" by simp
      with k1 k2 show ?thesis by (blast intro: passKeeps_trans)
    qed
  qed
qed

lemma pullPaths_keeps: "pullPaths w ps h = (Returned (e, h'), r) \<Longrightarrow> passKeeps h h'"
proof (induction ps arbitrary: h r)
  case Nil
  then show ?case by (simp add: passKeeps_refl)
next
  case (Cons p ps)
  from Cons.prems obtain n0 n1 rest where sp: "Split p CHR ''-'' = n0 # n1 # rest"
    by (auto split: list.splits)
  obtain x r1 where g1: "getPath w n0 n1 h = (x, r1)" by (metis surj_pair)
  show ?case
  proof (cases x)
    case (Panic q)
    with Cons.prems sp g1 show ?thesis by simp
  next
    case (Returned y)
    obtain e1 h1 where y: "y = (e1, h1)" by (metis surj_pair)
    from g1 Returned y have k1: "passKeeps h h1" by (simp add: getPath_keeps)
    show ?thesis
    proof (cases e1)
      case (Some err)
      with Cons.prems sp g1 Returned y k1 show ?thesis by simp
    next
      case None
      with Cons.prems sp g1 Returned y obtain r' where "pullPaths w ps h1 = (Returned (e, h'), r')"
        by (auto split: prod.splits)
      from Cons.IH[OF this] k1 show ?thesis by (blast intro: passKeeps_trans)
    qed
  qed
qed

lemma indexAssets_fields:
  "pathsByTag (indexAssets ks h) = pathsByTag h \<and> chainById (indexAssets ks h) = chainById h
   \<and> chainList (indexAssets ks h) = chainList h"
  unfolding indexAssets_def
  by (induction ks arbitrary: h) (auto simp: indexAssetList_def Let_def split: option.splits)

section \<open>The requests of a pass\<close>

lemma recentCommits_requests: "snd (recentCommits w h) = [ReqCommits (lastUpdated h)]"
  by (simp add: recentCommits_def)

lemma getChains_requests: "snd (getChains w h) = [ReqContents]"
  by (simp add: getChains_def)

lemma getPaths_requests: "snd (getPaths w h) = [ReqContentsIBC]"
  by (simp add: getPaths_def)

lemma getChain_requests: "snd (getChain w name h) = [ReqChainJson name]"
  by (simp add: getChain_def)

lemma getAssetList_requests: "snd (getAssetList w name h) = [ReqAssetlistJson name]"
  by (simp add: getAssetList_def)

lemma getPath_requests: "snd (getPath w a b h) = [ReqPathJson (getPathName a b)]"
  by (simp add: getPath_def Let_def)

lemma getChains_eq: "getChains w h = (x, r) \<Longrightarrow> r = [ReqContents]"
  using getChains_requests[of w h] by simp

lemma getPaths_eq: "getPaths w h = (x, r) \<Longrightarrow> r = [ReqContentsIBC]"
  using getPaths_requests[of w h] by simp

lemma pullChains_requests:
  "pullChains w cs h = (res, r) \<Longrightarrow> req \<in> set r \<Longrightarrow>
     (\<exists>name. req = ReqChainJson name \<or> req = ReqAssetlistJson name)"
proof (induction cs arbitrary: h r res)
  case Nil
  then show ?case by simp
next
  case (Cons c cs)
  obtain e1 h1 where g1: "getChain w c h = ((e1, h1), [ReqChainJson c])"
    using getChain_requests[of w c h] by (metis prod.collapse)
  obtain e2 h2 where g2: "getAssetList w c h1 = ((e2, h2), [ReqAssetlistJson c])"
    using getAssetList_requests[of w c h1] by (metis prod.collapse)
  obtain res3 r3 where g3: "pullChains w cs h2 = (res3, r3)" by (metis surj_pair)
  from Cons.prems(1) g1 g2 g3 have "set r \<subseteq> {ReqChainJson c, ReqAssetlistJson c} \<union> set r3"
    by (auto split: option.splits)
  with Cons.prems(2) Cons.IH[OF g3] show ?case by auto
qed

lemma pullPaths_requests:
  "pullPaths w ps h = (x, r) \<Longrightarrow> req \<in> set r \<Longrightarrow> (\<exists>name. req = ReqPathJson name)"
proof (induction ps arbitrary: h r x)
  case Nil
  then show ?case by simp
next
  case (Cons p ps)
  from Cons.prems obtain n0 n1 rest where sp: "Split p CHR ''-'' = n0 # n1 # rest"
    by (auto split: list.splits)
  obtain y where g1: "getPath w n0 n1 h = (y, [ReqPathJson (getPathName n0 n1)])"
    using getPath_requests[of w n0 n1 h] by (metis prod.collapse)
  show ?case
  proof (cases "\<exists>h1. y = Returned (None, h1)")
    case True
    then obtain h1 where y: "y = Returned (None, h1)" by blast
    obtain res r2 where g2: "pullPaths w ps h1 = (res, r2)" by (metis surj_pair)
    with Cons.prems(1) sp g1 y have "r = [ReqPathJson (getPathName n0 n1)] @ r2" by simp
    with Cons.prems(2) Cons.IH[OF g2] show ?thesis by auto
  next
    case False
    with Cons.prems(1) sp g1 have "r = [ReqPathJson (getPathName n0 n1)]"
      by (auto split: run.splits option.splits prod.splits)
    with Cons.prems(2) show ?thesis by simp
  qed
qed

lemma getChain_hardFailure:
  "hardFailure (chainJson w name) \<Longrightarrow> fst (fst (getChain w name h)) \<noteq> None"
  by (auto simp: getChain_def hardFailure_def split: response.splits option.splits)

lemma getAssetList_hardFailure:
  "hardFailure (assetlistJson w name) \<Longrightarrow> fst (fst (getAssetList w name h)) \<noteq> None"
  by (auto simp: getAssetList_def hardFailure_def split: response.splits option.splits)

lemma getPath_hardFailure:
  "hardFailure (pathJson w (getPathName a b)) \<Longrightarrow> \<exists>err. fst (getPath w a b h) = Returned (Some err, h)"
  by (auto simp: getPath_def Let_def hardFailure_def split: response.splits option.splits)

lemma not_failedDocument [simp]:
  "\<not> failedDocument w (ReqCommits t)" "\<not> failedDocument w ReqContents"
  "\<not> failedDocument w ReqContentsIBC"
  by (simp_all add: failedDocument_def)

lemma pullChains_failed:
  "pullChains w cs h = ((e, h'), r) \<Longrightarrow> \<exists>req \<in> set r. failedDocument w req \<Longrightarrow> e \<noteq> None"
proof (induction cs arbitrary: h r)
  case Nil
  then show ?case by simp
next
  case (Cons c cs)
  obtain e1 h1 where g1: "getChain w c h = ((e1, h1), [ReqChainJson c])"
    using getChain_requests[of w c h] by (metis prod.collapse)
  obtain e2 h2 where g2: "getAssetList w c h1 = ((e2, h2), [ReqAssetlistJson c])"
    using getAssetList_requests[of w c h1] by (metis prod.collapse)
  obtain res r3 where g3: "pullChains w cs h2 = (res, r3)" by (metis surj_pair)
  show ?case
  proof (cases e1)
    case (Some err)
    with Cons.prems(1) g1 show ?thesis by auto
  next
    case n1: None
    with g1 getChain_hardFailure[of w c h] have f1: "\<not> failedDocument w (ReqChainJson c)"
      by (auto simp: failedDocument_def)
    show ?thesis
    proof (cases e2)
      case (Some err)
      with Cons.prems(1) g1 g2 n1 show ?thesis by auto
    next
      case n2: None
      with g2 getAssetList_hardFailure[of w c h1] have f2: "\<not> failedDocument w (ReqAssetlistJson c)"
        by (auto simp: failedDocument_def)
      from Cons.prems(1) g1 g2 g3 n1 n2 have "res = (e, h')" "r = [ReqChainJson c] @ [ReqAssetlistJson c] @ r3"
        by simp_all
      with Cons.prems(2) f1 f2 have "\<exists>req \<in> set r3. failedDocument w req" by auto
      with Cons.IH[of h2 r3] g3 \<open>res = (e, h')\<close> show ?thesis by simp
    qed
  qed
qed

lemma pullPaths_failed:
  "pullPaths w ps h = (x, r) \<Longrightarrow> \<exists>req \<in> set r. failedDocument w req \<Longrightarrow>
     \<exists>err h'. x = Returned (Some err, h')"
proof (induction ps arbitrary: h r x)
  case Nil
  then show ?case by simp
next
  case (Cons p ps)
  from Cons.prems obtain n0 n1 rest where sp: "Split p CHR ''-'' = n0 # n1 # rest"
    by (auto split: list.splits)
  obtain y where g1: "getPath w n0 n1 h = (y, [ReqPathJson (getPathName n0 n1)])"
    using getPath_requests[of w n0 n1 h] by (metis prod.collapse)
  show ?case
  proof (cases "failedDocument w (ReqPathJson (getPathName n0 n1))")
    case True
    then obtain err where "y = Returned (Some err, h)"
      using getPath_hardFailure[of w n0 n1 h] g1 by (auto simp: failedDocument_def)
    with Cons.prems(1) sp g1 show ?thesis by auto
  next
    case False
    show ?thesis
    proof (cases y)
      case (Panic q)
      with Cons.prems sp g1 False show ?thesis by auto
    next
      case (Returned z)
      obtain e1 h1 where z: "z = (e1, h1)" by (metis surj_pair)
      show ?thesis
      proof (cases e1)
        case (Some err)
        with Cons.prems(1) sp g1 Returned z show ?thesis by auto
      next
        case None
        obtain res r2 where g2: "pullPaths w ps h1 = (res, r2)" by (metis surj_pair)
        with Cons.prems(1) sp g1 Returned z None
        have "x = res" "r = [ReqPathJson (getPathName n0 n1)] @ r2" by simp_all
        with Cons.prems(2) False have "\<exists>req \<in> set r2. failedDocument w req" by auto
        with Cons.IH[OF g2] \<open>x = res\<close> show ?thesis by simp
      qed
    qed
  qed
qed

section \<open>Pull\<close>

text \<open>
  C8. When the query of the commit history returns the empty list, the pass makes no
  other request, so it fetches no document; it leaves the handler as it is but for the
  time of the last update, which becomes the time of the attempt, and returns no error.
\<close>

theorem Pull_no_recent_commits:
  "commits w (lastUpdated h) = Response StatusOK rf (Some []) \<Longrightarrow>
     Pull w h = (Returned (None, h\<lparr>lastUpdated := now w\<rparr>), [ReqCommits (lastUpdated h)])"
  by (simp add: Pull_def recentCommits_def)

text \<open>A pass over the example handler with a commit history that is empty.\<close>

theorem Pull_no_recent_commits_witness:
  "commits (registry\<lparr>commits := \<lambda>since. Response 200 False (Some [])\<rparr>) 5
     = Response StatusOK False (Some [])
   \<and> Pull (registry\<lparr>commits := \<lambda>since. Response 200 False (Some [])\<rparr>) (mirrored\<lparr>lastUpdated := 5\<rparr>)
     = (Returned (None, mirrored), [ReqCommits 5])"
proof -
  let ?w = "registry\<lparr>commits := \<lambda>since. Response 200 False (Some [])\<rparr>"
  have a: "\<And>t. commits ?w t = Response StatusOK False (Some [])"
    by (simp add: StatusOK_def)
  have n: "now ?w = 1700000000" by (simp add: registry_def)
  have m: "mirrored\<lparr>lastUpdated := 5, lastUpdated := 1700000000\<rparr> = mirrored"
    by (simp add: mirrored_def)
  from Pull_no_recent_commits[of ?w "mirrored\<lparr>lastUpdated := 5\<rparr>" False] a n m
  show ?thesis by simp
qed

text \<open>The stages of a pass that has an error to return.\<close>

lemma Pull_error_keeps:
  assumes "Pull w h = (Returned (Some err, h'), r)"
  shows "passKeeps h h'"
proof -
  obtain rc e0 where c0: "recentCommits w h = ((rc, e0), [ReqCommits (lastUpdated h)])"
    using recentCommits_requests[of w h] by (metis prod.collapse)
  show ?thesis
  proof (cases "e0 = None \<and> rc")
    case False
    with assms c0 show ?thesis
      by (auto simp: Pull_def passKeeps_refl split: option.splits bool.splits)
  next
    case True
    obtain x1 r1 where c1: "getChains w h = (x1, r1)" by (metis surj_pair)
    show ?thesis
    proof (cases x1)
      case (Panic q)
      with assms c0 True c1 show ?thesis by (simp add: Pull_def)
    next
      case (Returned y1)
      obtain e1 h1 where y1: "y1 = (e1, h1)" by (metis surj_pair)
      from c1 Returned y1 have k1: "passKeeps h h1" by (simp add: getChains_keeps)
      show ?thesis
      proof (cases e1)
        case (Some a)
        with assms c0 True c1 Returned y1 k1 show ?thesis by (simp add: Pull_def)
      next
        case n1: None
        obtain x2 r2 where c2: "getPaths w h1 = (x2, r2)" by (metis surj_pair)
        show ?thesis
        proof (cases x2)
          case (Panic q)
          with assms c0 True c1 Returned y1 n1 c2 show ?thesis by (simp add: Pull_def)
        next
          case r2: (Returned y2)
          obtain e2 h2 where y2: "y2 = (e2, h2)" by (metis surj_pair)
          from c2 r2 y2 have k2: "passKeeps h1 h2" by (simp add: getPaths_keeps)
          show ?thesis
          proof (cases e2)
            case (Some a)
            with assms c0 True c1 Returned y1 n1 c2 r2 y2 passKeeps_trans[OF k1 k2]
            show ?thesis by (simp add: Pull_def)
          next
            case n2: None
            obtain e3 h3 r3 where c3: "pullChains w (chains h2) h2 = ((e3, h3), r3)"
              by (metis surj_pair)
            from pullChains_keeps[OF c3] k1 k2 have k3: "passKeeps h h3"
              by (blast intro: passKeeps_trans)
            show ?thesis
            proof (cases e3)
              case (Some a)
              with assms c0 True c1 Returned y1 n1 c2 r2 y2 n2 c3 k3
              show ?thesis by (simp add: Pull_def)
            next
              case n3: None
              obtain x4 r4 where c4: "pullPaths w (paths h3) h3 = (x4, r4)" by (metis surj_pair)
              with assms c0 True c1 Returned y1 n1 c2 r2 y2 n2 c3 n3
              have "x4 = Returned (Some err, h')"
                by (auto simp: Pull_def split: run.splits option.splits)
              with c4 pullPaths_keeps[of w "paths h3" h3 "Some err" h' r4] k3
              show ?thesis by (blast intro: passKeeps_trans)
            qed
          qed
        qed
      qed
    qed
  qed
qed

lemma Pull_failed:
  assumes "Pull w h = (res, reqs)" and "\<exists>req \<in> set reqs. failedDocument w req"
  shows "\<exists>err h'. res = Returned (Some err, h')"
proof -
  obtain rc e0 where c0: "recentCommits w h = ((rc, e0), [ReqCommits (lastUpdated h)])"
    using recentCommits_requests[of w h] by (metis prod.collapse)
  obtain x1 where c1: "getChains w h = (x1, [ReqContents])"
    using getChains_requests[of w h] by (metis prod.collapse)
  show ?thesis
  proof (cases "\<exists>h1 h2. e0 = None \<and> rc \<and> x1 = Returned (None, h1)
                  \<and> fst (getPaths w h1) = Returned (None, h2)")
    case False
    have "set reqs \<subseteq> {ReqCommits (lastUpdated h), ReqContents, ReqContentsIBC}"
      using assms(1) c0 c1 False
      by (auto simp: Pull_def split: option.splits bool.splits run.splits prod.splits
               dest!: getPaths_eq)
    with assms(2) show ?thesis by auto
  next
    case True
    then obtain h1 h2 where s: "e0 = None" "rc" "x1 = Returned (None, h1)"
      and c2: "getPaths w h1 = (Returned (None, h2), [ReqContentsIBC])"
      using getPaths_requests by (metis prod.collapse)
    obtain e3 h3 r3 where c3: "pullChains w (chains h2) h2 = ((e3, h3), r3)"
      by (metis surj_pair)
    show ?thesis
    proof (cases e3)
      case (Some a)
      with assms(1) c0 c1 s c2 c3 show ?thesis by (auto simp: Pull_def)
    next
      case None
      with c3 pullChains_failed[OF c3] have nf: "\<forall>req \<in> set r3. \<not> failedDocument w req"
        by auto
      obtain x4 r4 where c4: "pullPaths w (paths h3) h3 = (x4, r4)" by (metis surj_pair)
      from assms(1) c0 c1 s c2 c3 None c4
      have "reqs = [ReqCommits (lastUpdated h)] @ [ReqContents] @ [ReqContentsIBC] @ r3 @ r4"
        by (auto simp: Pull_def split: run.splits option.splits)
      with assms(2) nf have "\<exists>req \<in> set r4. failedDocument w req" by auto
      from pullPaths_failed[OF c4 this] obtain err h' where "x4 = Returned (Some err, h')" by blast
      with assms(1) c0 c1 s c2 c3 None c4 show ?thesis by (auto simp: Pull_def)
    qed
  qed
qed

text \<open>
  C1, as the code has it. A pass in which a fetch of a chain, asset list or path
  document fails (the request fails, the status is neither 200 nor 404, or the bytes
  cannot be read or decoded) returns an error, and leaves the time of the last update,
  the index of the assets and the list of the assets as they were before the pass. (The
  pass assigns the lists of names, the documents and the indexes by identifier and by
  tag in place as it goes, and takes nothing back.)
\<close>

theorem Pull_failed_document:
  assumes "Pull w h = (res, reqs)" and "\<exists>req \<in> set reqs. failedDocument w req"
  shows "\<exists>err h'. res = Returned (Some err, h')
           \<and> lastUpdated h' = lastUpdated h \<and> chainByAsset h' = chainByAsset h
           \<and> assets h' = assets h"
proof -
  from Pull_failed[OF assms] obtain err h' where r: "res = Returned (Some err, h')" by blast
  with assms(1) have "passKeeps h h'" by (simp add: Pull_error_keeps)
  with r show ?thesis by (simp add: passKeeps_def)
qed

text \<open>
  The pass over the registry whose second chain document answers with status 500: it
  stops there, with the lists of names and the first chain already in the handler.
\<close>

lemma Pull_brokenRegistry:
  "Pull brokenRegistry (NewHandler ''cosmos/chain-registry'') =
     (Returned (Some (UnexpectedStatus 500), halfMirrored),
      [ReqCommits 0, ReqContents, ReqContentsIBC, ReqChainJson ''_IBC'', ReqAssetlistJson ''_IBC'',
       ReqChainJson ''cosmoshub'', ReqAssetlistJson ''cosmoshub'', ReqChainJson ''osmosis''])"
  by (simp add: Pull_def recentCommits_def getChains_def getPaths_def getChain_def
      getAssetList_def brokenRegistry_def registry_def NewHandler_def halfMirrored_def
      dirEntry_def fileEntry_def StatusOK_def StatusNotFound_def cosmoshub_def)

theorem Pull_failed_document_witness:
  "ReqChainJson ''osmosis'' \<in> set (snd (Pull brokenRegistry (NewHandler ''cosmos/chain-registry'')))
   \<and> failedDocument brokenRegistry (ReqChainJson ''osmosis'')
   \<and> (case fst (Pull brokenRegistry (NewHandler ''cosmos/chain-registry'')) of
         Returned (Some err, h') \<Rightarrow>
           lastUpdated h' = 0 \<and> chainByAsset h' = Map.empty \<and> assets h' = []
       | _ \<Rightarrow> False)"
proof -
  let ?h = "NewHandler ''cosmos/chain-registry''"
  have f: "failedDocument brokenRegistry (ReqChainJson ''osmosis'')"
    by (simp add: failedDocument_def hardFailure_def brokenRegistry_def StatusOK_def
        StatusNotFound_def)
  have r: "ReqChainJson ''osmosis'' \<in> set (snd (Pull brokenRegistry ?h))"
    by (simp add: Pull_brokenRegistry)
  with f have "\<exists>req \<in> set (snd (Pull brokenRegistry ?h)). failedDocument brokenRegistry req"
    by blast
  from Pull_failed_document[OF prod.collapse[symmetric] this]
  obtain err h' where "fst (Pull brokenRegistry ?h) = Returned (Some err, h')"
    "lastUpdated h' = lastUpdated ?h" "chainByAsset h' = chainByAsset ?h" "assets h' = assets ?h"
    by blast
  with f r show ?thesis by (simp add: NewHandler_def)
qed

text \<open>
  The same pass against the atomic reading: a document fetch has failed, and the list of
  chain names, the chain documents and the index by identifier are not as before.
\<close>

theorem Pull_failed_document_counterexample:
  "failedDocument brokenRegistry (ReqChainJson ''osmosis'')
   \<and> Pull brokenRegistry (NewHandler ''cosmos/chain-registry'') =
       (Returned (Some (UnexpectedStatus 500), halfMirrored),
        [ReqCommits 0, ReqContents, ReqContentsIBC, ReqChainJson ''_IBC'', ReqAssetlistJson ''_IBC'',
         ReqChainJson ''cosmoshub'', ReqAssetlistJson ''cosmoshub'', ReqChainJson ''osmosis''])
   \<and> chains halfMirrored \<noteq> chains (NewHandler ''cosmos/chain-registry'')
   \<and> chainList halfMirrored ''cosmoshub'' \<noteq> chainList (NewHandler ''cosmos/chain-registry'') ''cosmoshub''
   \<and> chainById halfMirrored ''cosmoshub-4'' \<noteq> chainById (NewHandler ''cosmos/chain-registry'') ''cosmoshub-4''"
proof -
  have "failedDocument brokenRegistry (ReqChainJson ''osmosis'')"
    by (simp add: failedDocument_def hardFailure_def brokenRegistry_def StatusOK_def
        StatusNotFound_def)
  moreover have "chains halfMirrored \<noteq> chains (NewHandler ''cosmos/chain-registry'')"
    "chainList halfMirrored ''cosmoshub'' \<noteq> chainList (NewHandler ''cosmos/chain-registry'') ''cosmoshub''"
    "chainById halfMirrored ''cosmoshub-4'' \<noteq> chainById (NewHandler ''cosmos/chain-registry'') ''cosmoshub-4''"
    by (simp_all add: halfMirrored_def NewHandler_def)
  ultimately show ?thesis using Pull_brokenRegistry by simp
qed

text \<open>Every pass that returns keeps the two properties of the handler.\<close>

lemma Pull_keeps_invariants:
  assumes "Pull w h = (Returned (e, h'), r)"
  shows "dom (pathsByTag h') = dom (pathsByTag h) \<and> (idsResolve h \<longrightarrow> idsResolve h')"
proof (cases e)
  case (Some err)
  with assms have "passKeeps h h'" by (simp add: Pull_error_keeps)
  then show ?thesis by (simp add: passKeeps_def)
next
  case None
  obtain rc e0 where c0: "recentCommits w h = ((rc, e0), [ReqCommits (lastUpdated h)])"
    using recentCommits_requests[of w h] by (metis prod.collapse)
  show ?thesis
  proof (cases rc)
    case False
    with assms None c0 have "h' = h\<lparr>lastUpdated := now w\<rparr>"
      by (auto simp: Pull_def split: option.splits)
    then show ?thesis by (simp add: idsResolve_def)
  next
    case True
    with assms None c0 have "\<exists>h1 r1 h2 r2 h3 r3 h4 r4.
      getChains w h = (Returned (None, h1), r1)
      \<and> getPaths w h1 = (Returned (None, h2), r2)
      \<and> pullChains w (chains h2) h2 = ((None, h3), r3)
      \<and> pullPaths w (paths h3) h3 = (Returned (None, h4), r4)
      \<and> h' = (indexAssets (assetListOrder w) h4)\<lparr>lastUpdated := now w\<rparr>"
      by (auto simp: Pull_def split: option.splits run.splits prod.splits)
    then obtain h1 r1 h2 r2 h3 r3 h4 r4 where
      "getChains w h = (Returned (None, h1), r1)"
      "getPaths w h1 = (Returned (None, h2), r2)"
      "pullChains w (chains h2) h2 = ((None, h3), r3)"
      "pullPaths w (paths h3) h3 = (Returned (None, h4), r4)"
      "h' = (indexAssets (assetListOrder w) h4)\<lparr>lastUpdated := now w\<rparr>"
      by blast
    note st = this
    have "passKeeps h h4"
      using getChains_keeps[OF st(1)] getPaths_keeps[OF st(2)] pullChains_keeps[OF st(3)]
        pullPaths_keeps[OF st(4)]
      by (blast intro: passKeeps_trans)
    with st(5) show ?thesis
      using indexAssets_fields[of "assetListOrder w" h4]
      by (simp add: passKeeps_def idsResolve_def)
  qed
qed

lemma Pull_tagKeys: "Pull w h = (Returned (e, h'), r) \<Longrightarrow> tagKeys h \<Longrightarrow> tagKeys h'"
  using Pull_keeps_invariants[of w h e h' r] by (simp add: tagKeys_def)

lemma Pull_idsResolve: "Pull w h = (Returned (e, h'), r) \<Longrightarrow> idsResolve h \<Longrightarrow> idsResolve h'"
  using Pull_keeps_invariants[of w h e h' r] by simp

text \<open>The pass over the example registry, from a new handler, gives the example handler.\<close>

lemma Pull_registry:
  "Pull registry (NewHandler ''cosmos/chain-registry'') =
     (Returned (None, mirrored),
      [ReqCommits 0, ReqContents, ReqContentsIBC, ReqChainJson ''_IBC'', ReqAssetlistJson ''_IBC'',
       ReqChainJson ''cosmoshub'', ReqAssetlistJson ''cosmoshub'', ReqChainJson ''osmosis'',
       ReqAssetlistJson ''osmosis'', ReqPathJson ''cosmoshub-osmosis''])"
  by (simp add: Pull_def recentCommits_def getChains_def getPaths_def getChain_def
      getAssetList_def getPath_def getPathName_def Compare_def less_char_def Let_def
      indexChannel_def appendTag_def FormatBool_def indexAssets_def
      DEX_def PREFERRED_def PROPERTIES_def STATUS_def
      registry_def NewHandler_def mirrored_def hubOsmosis_def transfer_def
      dirEntry_def fileEntry_def StatusOK_def StatusNotFound_def cosmoshub_def osmosis_def
      fun_eq_iff)

text \<open>The two properties hold in every state of the handler.\<close>

lemma reachable_invariants: "reachable h \<Longrightarrow> tagKeys h \<and> idsResolve h"
proof (induction rule: reachable.induct)
  case (new url)
  show ?case by (simp add: tagKeys_NewHandler idsResolve_NewHandler)
next
  case (pull h w e h' r)
  then show ?case by (blast intro: Pull_tagKeys Pull_idsResolve)
qed

lemma reachable_mirrored: "reachable mirrored"
  using reachable.pull[OF reachable.new Pull_registry] .

end
